theory Spec2Isabelle
  imports Complex_Main
begin

section \<open>Data model\<close>

text \<open>
  A point of a geometry is the JSON object \<open>{"lat": ..., "lon": ...}\<close>. Python floats are
  idealised as reals; the only operation the pipeline applies to them is \<open>==\<close>, which
  is HOL equality here.
\<close>

record coord =
  lat :: real
  lon :: real

text \<open>A processed element is the dictionary \<open>{"id", "geometry", "name"}\<close> built by
  \<open>DataProcessor._process\<close>; \<open>name\<close> is \<open>None\<close> when the way has no name tag.\<close>

record element =
  id_el :: int
  geometry :: "coord list"
  name :: "string option"

text \<open>The exception classes of \<open>utils/exceptions.py\<close>, then the library classes the
  source names in its handlers, then any other class, by its name. A handler catches a
  class with its subclasses: \<open>RequestException c\<close> is an instance of
  \<open>requests.RequestException\<close> whose own class is named \<open>c\<close> (the class itself,
  \<open>HTTPError\<close>, \<open>ConnectionError\<close>, \<open>Timeout\<close>, ...), so that
  \<open>except requests.RequestException\<close> catches every \<open>RequestException c\<close>. The two
  geocoder classes have no subclasses, and \<open>OtherException\<close> stands for a class outside
  all of these.\<close>

datatype exn =
    ConfigError | DatabaseError | GeocodingError | GraphBuilderError | OsmApiError
  | ValueError | IndexError
  | GeocoderTimedOut | GeocoderUnavailable | RequestException string | Psycopg2Error
  | OtherException string

section \<open>graph\_builder.py: the connection map and the relationships\<close>

type_synonym point = "real \<times> real"

text \<open>\<open>connection_map\<close> is a \<open>defaultdict(set)\<close>: the keys in insertion order, each with
  its set of element ids.\<close>

type_synonym connection_map = "(point \<times> int set) list"

text \<open>\<open>connection_map[p].add(i)\<close>: a missing key is created with the empty set first.\<close>

fun cm_add :: "'k \<Rightarrow> 'a \<Rightarrow> ('k \<times> 'a set) list \<Rightarrow> ('k \<times> 'a set) list" where
  "cm_add p i [] = [(p, {i})]"
| "cm_add p i ((q, S) # m) = (if p = q then (q, insert i S) # m else (q, S) # cm_add p i m)"

text \<open>The loop of \<open>_build_connection_map\<close>, with the map built so far.
  \<open>element["geometry"][0]\<close> raises \<open>IndexError\<close> on an empty geometry.\<close>

fun build_connection_map_loop :: "connection_map \<Rightarrow> element list \<Rightarrow> exn + connection_map" where
  "build_connection_map_loop m [] = Inr m"
| "build_connection_map_loop m (e # es) =
     (case geometry e of
        [] \<Rightarrow> Inl IndexError
      | c # cs \<Rightarrow>
          (let start_point = (lat c, lon c);
               end_point = (lat (last (c # cs)), lon (last (c # cs)))
           in build_connection_map_loop
                (cm_add end_point (id_el e) (cm_add start_point (id_el e) m)) es))"

definition build_connection_map :: "element list \<Rightarrow> exn + connection_map" where
  "build_connection_map elements = build_connection_map_loop [] elements"

text \<open>A relationship is the dictionary \<open>{"from": ..., "to": ...}\<close>.\<close>

record relationship =
  rel_from :: int
  rel_to :: int

text \<open>The comprehension \<open>[{"from": l[i], "to": l[j]} for i in range(len(l))
  for j in range(i + 1, len(l))]\<close>.\<close>

definition pairs_of :: "int list \<Rightarrow> relationship list" where
  "pairs_of l =
     concat (map (\<lambda>i. map (\<lambda>j. \<lparr>rel_from = l ! i, rel_to = l ! j\<rparr>) [i + 1 ..< length l])
                 [0 ..< length l])"

text \<open>\<open>list(connected_ids)\<close> lists a set in an order Python does not specify: the
  listing is a parameter \<open>enum\<close>, and \<open>enumerates enum\<close> says that it lists every
  finite set once, each member once.\<close>

definition enumerates :: "(int set \<Rightarrow> int list) \<Rightarrow> bool" where
  "enumerates enum \<longleftrightarrow> (\<forall>S. finite S \<longrightarrow> set (enum S) = S \<and> distinct (enum S))"

definition generate_relationships ::
  "(int set \<Rightarrow> int list) \<Rightarrow> connection_map \<Rightarrow> relationship list" where
  "generate_relationships enum connection_map =
     concat (map (\<lambda>(p, connected_ids).
                    if card connected_ids > 1 then pairs_of (enum connected_ids) else [])
                 connection_map)"

text \<open>The two endpoints of an element, as \<open>_build_connection_map\<close> reads them.\<close>

definition start_point :: "element \<Rightarrow> point" where
  "start_point e = (lat (hd (geometry e)), lon (hd (geometry e)))"

definition end_point :: "element \<Rightarrow> point" where
  "end_point e = (lat (last (geometry e)), lon (last (geometry e)))"

text \<open>Reading aids for the theorems: the ids a connection map holds at a key (the
  empty set at a key it does not have) and the endpoints of an element as a set.\<close>

definition ids_at :: "('k \<times> 'a set) list \<Rightarrow> 'k \<Rightarrow> 'a set" where
  "ids_at m p = (case map_of m p of None \<Rightarrow> {} | Some S \<Rightarrow> S)"

definition endpoints :: "element \<Rightarrow> point set" where
  "endpoints e = {start_point e, end_point e}"

section \<open>data\_processor.py\<close>

text \<open>A raw element of the Overpass answer: \<open>geometry\<close> and \<open>tags\<close> may be missing
  (\<open>element.get\<close>), \<open>tags\<close> is a dictionary of strings.\<close>

record raw_element =
  type_raw :: string
  id_raw :: int
  geometry_raw :: "coord list option"
  tags_raw :: "(string \<times> string) list option"

record raw_data =
  elements :: "raw_element list option"

definition extract_geometry :: "raw_element \<Rightarrow> coord list" where
  "extract_geometry element =
     (if type_raw element = ''way''
      then (case geometry_raw element of None \<Rightarrow> [] | Some g \<Rightarrow> g)
      else [])"

definition process :: "raw_element \<Rightarrow> element" where
  "process element =
     \<lparr>id_el = id_raw element,
      geometry = extract_geometry element,
      name = (case tags_raw element of None \<Rightarrow> None | Some tags \<Rightarrow> map_of tags ''name'')\<rparr>"

fun process_data_loop :: "raw_element list \<Rightarrow> element list \<Rightarrow> element list" where
  "process_data_loop [] processed_data = processed_data"
| "process_data_loop (element # rest) processed_data =
     (if type_raw element = ''way''
      then process_data_loop rest (processed_data @ [process element])
      else process_data_loop rest processed_data)"

definition process_data :: "raw_data \<Rightarrow> element list" where
  "process_data raw =
     process_data_loop (case elements raw of None \<Rightarrow> [] | Some es \<Rightarrow> es) []"

text \<open>\<open>new_data != old_data\<close>, where \<open>old_data\<close> is \<open>None\<close> or the list read back
  from the snapshot file: a list is never equal to \<open>None\<close>.\<close>

definition is_data_changed :: "element list \<Rightarrow> element list option \<Rightarrow> bool" where
  "is_data_changed new_data old_data \<longleftrightarrow> Some new_data \<noteq> old_data"

section \<open>utils/config.py\<close>

record sql_config =
  sql_host :: "string option"
  sql_port :: "string option"
  sql_name :: "string option"
  sql_user :: "string option"
  sql_password :: "string option"
  sql_table_name :: "string option"

record neo4j_config =
  neo4j_uri :: "string option"
  neo4j_user :: "string option"
  neo4j_password :: "string option"
  graph_name :: "string option"

record config =
  REGION :: "string option"
  SQL_CONFIG :: sql_config
  NEO4J_CONFIG :: neo4j_config
  LOGGER_CONFIG_PATH :: "string option"
  DEBUG :: bool
  OUTPUT_DIR_PATH :: "string option"
  OUTPUT_FILE_NAME :: "string option"
  GEOCODING_AGENT :: "string option"
  OSM_API_URL :: "string option"

text \<open>Python's truth value of an environment variable: \<open>None\<close> and the empty string
  are false.\<close>

definition truthy :: "string option \<Rightarrow> bool" where
  "truthy v \<longleftrightarrow> v \<noteq> None \<and> v \<noteq> Some []"

definition validate_sql_config :: "config \<Rightarrow> exn + unit" where
  "validate_sql_config cfg =
     (if \<not> list_all truthy
            [sql_host (SQL_CONFIG cfg), sql_port (SQL_CONFIG cfg), sql_name (SQL_CONFIG cfg),
             sql_user (SQL_CONFIG cfg), sql_password (SQL_CONFIG cfg),
             sql_table_name (SQL_CONFIG cfg)]
      then Inl ConfigError else Inr ())"

definition validate_neo4j_config :: "config \<Rightarrow> exn + unit" where
  "validate_neo4j_config cfg =
     (if \<not> list_all truthy
            [neo4j_uri (NEO4J_CONFIG cfg), neo4j_user (NEO4J_CONFIG cfg),
             neo4j_password (NEO4J_CONFIG cfg), graph_name (NEO4J_CONFIG cfg)]
      then Inl ConfigError else Inr ())"

definition validate :: "config \<Rightarrow> exn + unit" where
  "validate cfg =
     (if \<not> truthy (REGION cfg) then Inl ValueError
      else case validate_sql_config cfg of Inl e \<Rightarrow> Inl e | Inr u \<Rightarrow>
           (case validate_neo4j_config cfg of Inl e \<Rightarrow> Inl e | Inr u \<Rightarrow>
            if \<not> truthy (LOGGER_CONFIG_PATH cfg) then Inl ConfigError
            else if \<not> truthy (OUTPUT_DIR_PATH cfg) then Inl ConfigError
            else if \<not> truthy (OUTPUT_FILE_NAME cfg) then Inl ConfigError
            else if \<not> truthy (GEOCODING_AGENT cfg) then Inl ConfigError
            else if \<not> truthy (OSM_API_URL cfg) then Inl ConfigError
            else Inr ()))"

section \<open>The stores and the collaborators\<close>

text \<open>The snapshot file: missing, holding a dumped collection, or cut short by a
  \<open>json.dump\<close> that failed after \<open>open(target, "w")\<close> had emptied the file.\<close>

datatype json_file = Missing | Holds "element list" | Garbled

text \<open>The well-known text of a line: the points as \<open>lon lat\<close>, in order. The digits
  Python prints for a float are not modelled.\<close>

datatype wkt = LINESTRING "(real \<times> real) list"

text \<open>The calls that leave the process. A run records each one it makes in \<open>trace\<close>;
  the environment decides which of them raise.\<close>

datatype step =
    Init | Geocode | Download | JsonRead | JsonWrite
  | SqlCleanup | SqlSaveData | GraphCleanup | GraphNodes | GraphRelationships

datatype log_entry = Info string | Error string

text \<open>The table is keyed by \<open>id\<close>. The graph store holds the \<open>Element\<close> nodes, which
  the pipeline creates by \<open>MERGE\<close> on \<open>id\<close> alone (one node for each id, with its
  name), and the \<open>CONNECTS_TO\<close> relationships between them, source id first; a
  relationship is listed as often as the store holds it.\<close>

record world =
  json_file :: json_file
  sql_table :: "int \<rightharpoonup> (string option \<times> wkt)"
  graph_nodes :: "int \<rightharpoonup> string option"
  graph_rels :: "(int \<times> int) list"
  log :: "log_entry list"
  trace :: "step list"

text \<open>The environment of a run: the configuration, the exception each outside call
  raises (if any), what Nominatim answers for a region (\<open>None\<close>: no location, otherwise
  the \<open>boundingbox\<close> list), what Overpass answers for a bounding box, how many rows
  \<open>save_data\<close> had committed when it failed, and whether a failing snapshot write had
  opened the file already.\<close>

record env =
  cfg :: config
  faults :: "step \<Rightarrow> exn option"
  geocode_reply :: "string option \<Rightarrow> string list option"
  download_reply :: "string \<Rightarrow> raw_data"
  sql_rows_committed :: nat
  json_write_opened :: bool

text \<open>A statement sequence that may raise: the world is threaded through, and an
  exception skips what follows.\<close>

type_synonym 'a action = "world \<Rightarrow> (exn + 'a) \<times> world"

definition returnE :: "'a \<Rightarrow> 'a action" where
  "returnE x w = (Inr x, w)"

definition raiseE :: "exn \<Rightarrow> 'a action" where
  "raiseE e w = (Inl e, w)"

definition bindE :: "'a action \<Rightarrow> ('a \<Rightarrow> 'b action) \<Rightarrow> 'b action" where
  "bindE m f w = (case m w of (Inl e, w') \<Rightarrow> (Inl e, w') | (Inr x, w') \<Rightarrow> f x w')"

text \<open>\<open>try: m  except Exception as e: h e\<close>.\<close>

definition try_except :: "'a action \<Rightarrow> (exn \<Rightarrow> 'a action) \<Rightarrow> 'a action" where
  "try_except m h w = (case m w of (Inl e, w') \<Rightarrow> h e w' | (Inr x, w') \<Rightarrow> (Inr x, w'))"

definition lift :: "exn + 'a \<Rightarrow> 'a action" where
  "lift r w = (r, w)"

definition modify :: "(world \<Rightarrow> world) \<Rightarrow> unit action" where
  "modify f w = (Inr (), f w)"

definition info :: "string \<Rightarrow> unit action" where
  "info msg = modify (\<lambda>w. w\<lparr>log := log w @ [Info msg]\<rparr>)"

text \<open>An outside call: recorded, then it raises what the environment says.\<close>

definition attempt :: "env \<Rightarrow> step \<Rightarrow> unit action" where
  "attempt ev s w =
     (case faults ev s of
        Some e \<Rightarrow> (Inl e, w\<lparr>trace := trace w @ [s]\<rparr>)
      | None \<Rightarrow> (Inr (), w\<lparr>trace := trace w @ [s]\<rparr>))"

subsection \<open>geocoder.py and osm\_downloader.py\<close>

fun join_comma :: "string list \<Rightarrow> string" where
  "join_comma [] = []"
| "join_comma [x] = x"
| "join_comma (x # y # ys) = x @ '','' @ join_comma (y # ys)"

text \<open>The handler catches \<open>GeocoderTimedOut\<close> and \<open>GeocoderUnavailable\<close> only; the
  \<open>GeocodingError\<close> raised for a missing location and any other exception leave the
  method as they are.\<close>

definition get_region_bbox :: "env \<Rightarrow> string option \<Rightarrow> string action" where
  "get_region_bbox ev region_name =
     try_except
       (bindE (attempt ev Geocode) (\<lambda>_.
          case geocode_reply ev region_name of
            None \<Rightarrow> raiseE GeocodingError
          | Some boundingbox \<Rightarrow>
              if length boundingbox < 4 then raiseE IndexError
              else returnE (join_comma [boundingbox ! 0, boundingbox ! 2,
                                        boundingbox ! 1, boundingbox ! 3])))
       (\<lambda>e. if e = GeocoderTimedOut \<or> e = GeocoderUnavailable then raiseE GeocodingError
            else raiseE e)"

definition download_data :: "env \<Rightarrow> string \<Rightarrow> raw_data action" where
  "download_data ev bbox =
     try_except
       (bindE (attempt ev Download) (\<lambda>_. returnE (download_reply ev bbox)))
       (\<lambda>e. case e of RequestException c \<Rightarrow> raiseE OsmApiError | _ \<Rightarrow> raiseE e)"

subsection \<open>data\_storage.py\<close>

text \<open>\<open>JsonDataStorage\<close> has no handler: what the file operations raise leaves the
  method unchanged.\<close>

definition json_save_data :: "env \<Rightarrow> element list \<Rightarrow> unit action" where
  "json_save_data ev data w =
     (case faults ev JsonWrite of
        Some e \<Rightarrow>
          (Inl e, w\<lparr>trace := trace w @ [JsonWrite],
                     json_file := (if json_write_opened ev then Garbled else json_file w)\<rparr>)
      | None \<Rightarrow>
          (Inr (), w\<lparr>trace := trace w @ [JsonWrite], json_file := Holds data,
                      log := log w @ [Info ''New processed data saved'']\<rparr>))"

definition json_get_data :: "env \<Rightarrow> element list option action" where
  "json_get_data ev w =
     (case json_file w of
        Missing \<Rightarrow> (Inr None, w)
      | Holds data \<Rightarrow> bindE (attempt ev JsonRead) (\<lambda>_. returnE (Some data)) w
      | Garbled \<Rightarrow>
          bindE (attempt ev JsonRead) (\<lambda>_. raiseE (OtherException ''JSONDecodeError'')) w)"

text \<open>Every coordinate of a processed element is a dictionary, so the first branch of
  \<open>_create_linestring\<close> is the one taken.\<close>

definition create_linestring :: "coord list \<Rightarrow> wkt" where
  "create_linestring coordinates = LINESTRING (map (\<lambda>c. (lon c, lat c)) coordinates)"

text \<open>\<open>INSERT ... ON CONFLICT (id) DO UPDATE\<close>, one row for each item, in order.\<close>

fun upsert_all ::
  "element list \<Rightarrow> (int \<rightharpoonup> (string option \<times> wkt)) \<Rightarrow> (int \<rightharpoonup> (string option \<times> wkt))" where
  "upsert_all [] t = t"
| "upsert_all (item # items) t =
     upsert_all items (t(id_el item \<mapsto> (name item, create_linestring (geometry item))))"

text \<open>Each row is committed as it is written, so a failure keeps the rows before it.\<close>

definition sql_save_data :: "env \<Rightarrow> element list \<Rightarrow> unit action" where
  "sql_save_data ev data =
     try_except
       (\<lambda>w. case faults ev SqlSaveData of
              Some e \<Rightarrow>
                (Inl e, w\<lparr>trace := trace w @ [SqlSaveData],
                           sql_table := upsert_all (take (sql_rows_committed ev) data)
                                                   (sql_table w)\<rparr>)
            | None \<Rightarrow>
                (Inr (), w\<lparr>trace := trace w @ [SqlSaveData],
                            sql_table := upsert_all data (sql_table w),
                            log := log w @ [Info ''Successfully inserted records'']\<rparr>))
       (\<lambda>e. raiseE DatabaseError)"

definition sql_cleanup :: "env \<Rightarrow> unit action" where
  "sql_cleanup ev =
     try_except
       (bindE (attempt ev SqlCleanup) (\<lambda>_.
        bindE (modify (\<lambda>w. w\<lparr>sql_table := Map.empty\<rparr>)) (\<lambda>_.
        info ''Successfully removed all records'')))
       (\<lambda>e. raiseE DatabaseError)"

subsection \<open>graph\_builder.py: the store\<close>

definition graph_cleanup :: "env \<Rightarrow> unit action" where
  "graph_cleanup ev =
     try_except
       (bindE (attempt ev GraphCleanup) (\<lambda>_.
        bindE (modify (\<lambda>w. w\<lparr>graph_nodes := Map.empty, graph_rels := []\<rparr>)) (\<lambda>_.
        info ''All nodes and relationships removed from Neo4j.'')))
       (\<lambda>e. raiseE GraphBuilderError)"

text \<open>\<open>UNWIND $nodes AS node MERGE (e:Element {id: node.id}) SET e.name = node.name\<close>.\<close>

fun merge_nodes :: "element list \<Rightarrow> (int \<rightharpoonup> string option) \<Rightarrow> (int \<rightharpoonup> string option)" where
  "merge_nodes [] ns = ns"
| "merge_nodes (element # rest) ns = merge_nodes rest (ns(id_el element \<mapsto> name element))"

definition create_nodes :: "env \<Rightarrow> element list \<Rightarrow> unit action" where
  "create_nodes ev elems =
     bindE (attempt ev GraphNodes) (\<lambda>_.
     modify (\<lambda>w. w\<lparr>graph_nodes := merge_nodes elems (graph_nodes w)\<rparr>))"

text \<open>\<open>MERGE (a)-[:CONNECTS_TO]->(b)\<close> creates the relationship only if the store
  does not hold it.\<close>

definition merge_rel :: "int \<times> int \<Rightarrow> (int \<times> int) list \<Rightarrow> (int \<times> int) list" where
  "merge_rel r rs = (if r \<in> set rs then rs else rs @ [r])"

text \<open>\<open>UNWIND $relationships AS rel MATCH (a:Element {id: rel.from}), (b:Element {id:
  rel.to}) MERGE (a)-[:CONNECTS_TO]->(b) MERGE (b)-[:CONNECTS_TO]->(a)\<close>: a row whose
  two nodes are not both in the store matches nothing.\<close>

fun merge_relationships ::
  "(int \<rightharpoonup> string option) \<Rightarrow> relationship list \<Rightarrow> (int \<times> int) list \<Rightarrow> (int \<times> int) list" where
  "merge_relationships ns [] rs = rs"
| "merge_relationships ns (rel # rest) rs =
     (if ns (rel_from rel) \<noteq> None \<and> ns (rel_to rel) \<noteq> None
      then merge_relationships ns rest
             (merge_rel (rel_to rel, rel_from rel) (merge_rel (rel_from rel, rel_to rel) rs))
      else merge_relationships ns rest rs)"

definition create_relationships ::
  "env \<Rightarrow> (int set \<Rightarrow> int list) \<Rightarrow> element list \<Rightarrow> unit action" where
  "create_relationships ev enum elems =
     bindE (lift (build_connection_map elems)) (\<lambda>connection_map.
     let relationships = generate_relationships enum connection_map in
     bindE (attempt ev GraphRelationships) (\<lambda>_.
     modify (\<lambda>w. w\<lparr>graph_rels :=
                      merge_relationships (graph_nodes w) relationships (graph_rels w)\<rparr>)))"

definition build_graph :: "env \<Rightarrow> (int set \<Rightarrow> int list) \<Rightarrow> element list \<Rightarrow> unit action" where
  "build_graph ev enum elems =
     try_except
       (bindE (create_nodes ev elems) (\<lambda>_.
        bindE (create_relationships ev enum elems) (\<lambda>_.
        info ''Graph built successfully'')))
       (\<lambda>e. raiseE GraphBuilderError)"

section \<open>main.py\<close>

text \<open>Lines 38 to 56 of \<open>main\<close>: validation, the components, geocoding, download,
  processing.\<close>

definition acquire :: "env \<Rightarrow> element list action" where
  "acquire ev =
     bindE (lift (validate (cfg ev))) (\<lambda>_.
     bindE (attempt ev Init) (\<lambda>_.
     bindE (info ''Geocoding region'') (\<lambda>_.
     bindE (get_region_bbox ev (REGION (cfg ev))) (\<lambda>bbox.
     bindE (info ''Downloading data for region'') (\<lambda>_.
     bindE (download_data ev bbox) (\<lambda>raw.
     bindE (info ''Processing data for region'') (\<lambda>_.
     returnE (process_data raw))))))))"

text \<open>Lines 68 to 75: the table is emptied and loaded, then the graph.\<close>

definition sync :: "env \<Rightarrow> (int set \<Rightarrow> int list) \<Rightarrow> element list \<Rightarrow> unit action" where
  "sync ev enum processed_data =
     bindE (info ''Inserting new data into database'') (\<lambda>_.
     bindE (sql_cleanup ev) (\<lambda>_.
     bindE (sql_save_data ev processed_data) (\<lambda>_.
     bindE (info ''Creating new graph'') (\<lambda>_.
     bindE (graph_cleanup ev) (\<lambda>_.
     build_graph ev enum processed_data)))))"

text \<open>The \<open>try\<close> block of \<open>main\<close>: the diff gate, the snapshot, then the sinks. The
  values interpolated into the log messages are left out.\<close>

definition main_try :: "env \<Rightarrow> (int set \<Rightarrow> int list) \<Rightarrow> unit action" where
  "main_try ev enum =
     bindE (acquire ev) (\<lambda>processed_data.
     bindE (json_get_data ev) (\<lambda>old_data.
     if \<not> is_data_changed processed_data old_data
     then info ''Processed data is not changed, skipping''
     else bindE (info ''Saving processed data'') (\<lambda>_.
          bindE (json_save_data ev processed_data) (\<lambda>_.
          sync ev enum processed_data))))"

text \<open>The handlers of \<open>main\<close>, in their order; each logs and returns.\<close>

definition handler :: "exn \<Rightarrow> log_entry" where
  "handler e =
     (if e = ConfigError then Error ''Config is not valid''
      else if e = GeocodingError then Error ''Geocoding error''
      else if e = OsmApiError then Error ''OSM API error''
      else if e = DatabaseError then Error ''Database error''
      else if e = GraphBuilderError then Error ''Graph builder error''
      else Error ''Unexpected error'')"

definition main :: "env \<Rightarrow> (int set \<Rightarrow> int list) \<Rightarrow> world \<Rightarrow> world" where
  "main ev enum w =
     (case main_try ev enum w of
        (Inr u, w') \<Rightarrow> w'
      | (Inl e, w') \<Rightarrow> w'\<lparr>log := log w' @ [handler e]\<rparr>)"

text \<open>The exception classes that \<open>utils/exceptions.py\<close> declares.\<close>

definition named :: "exn \<Rightarrow> bool" where
  "named e \<longleftrightarrow> e \<in> {ConfigError, DatabaseError, GeocodingError, GraphBuilderError, OsmApiError}"

text \<open>The calls made before the sinks are touched, and the calls to the graph store.\<close>

definition early_steps :: "step set" where
  "early_steps = {Init, Geocode, Download, JsonRead, JsonWrite}"

definition graph_steps :: "step set" where
  "graph_steps = {GraphCleanup, GraphNodes, GraphRelationships}"

section \<open>Example runs\<close>

text \<open>A complete configuration, two ways that meet at \<open>(1, 1)\<close>, an environment in
  which no outside call raises, and two starting worlds: one without a snapshot, one
  whose snapshot holds the first way only.\<close>

definition example_config :: config where
  "example_config =
     \<lparr>REGION = Some ''Pomorskie'',
      SQL_CONFIG = \<lparr>sql_host = Some ''db'', sql_port = Some ''5432'', sql_name = Some ''rivers'',
                    sql_user = Some ''u'', sql_password = Some ''p'',
                    sql_table_name = Some ''rivers''\<rparr>,
      NEO4J_CONFIG = \<lparr>neo4j_uri = Some ''bolt://neo4j'', neo4j_user = Some ''u'',
                      neo4j_password = Some ''p'', graph_name = Some ''rivers''\<rparr>,
      LOGGER_CONFIG_PATH = Some ''logging.ini'',
      DEBUG = False,
      OUTPUT_DIR_PATH = Some ''out'',
      OUTPUT_FILE_NAME = Some ''rivers.json'',
      GEOCODING_AGENT = Some ''agent'',
      OSM_API_URL = Some ''http://overpass''\<rparr>"

definition way_A :: raw_element where
  "way_A = \<lparr>type_raw = ''way'', id_raw = 1,
            geometry_raw = Some [\<lparr>lat = 0, lon = 0\<rparr>, \<lparr>lat = 1, lon = 1\<rparr>],
            tags_raw = Some [(''waterway'', ''river''), (''name'', ''Radunia'')]\<rparr>"

definition way_B :: raw_element where
  "way_B = \<lparr>type_raw = ''way'', id_raw = 2,
            geometry_raw = Some [\<lparr>lat = 1, lon = 1\<rparr>, \<lparr>lat = 2, lon = 2\<rparr>],
            tags_raw = None\<rparr>"

definition example_env :: "raw_data \<Rightarrow> env" where
  "example_env raw =
     \<lparr>cfg = example_config, faults = (\<lambda>s. None),
      geocode_reply = (\<lambda>r. Some [''53.4'', ''54.8'', ''16.7'', ''19.6'']),
      download_reply = (\<lambda>b. raw),
      sql_rows_committed = 0, json_write_opened = False\<rparr>"

definition fresh_world :: world where
  "fresh_world = \<lparr>json_file = Missing, sql_table = Map.empty, graph_nodes = Map.empty,
                   graph_rels = [], log = [], trace = []\<rparr>"

definition failing :: "step \<Rightarrow> exn \<Rightarrow> env \<Rightarrow> env" where
  "failing s e ev = ev\<lparr>faults := (faults ev)(s \<mapsto> e)\<rparr>"

definition two_ways :: raw_data where
  "two_ways = \<lparr>elements = Some [way_A, way_B]\<rparr>"

definition stored_world :: world where
  "stored_world = fresh_world\<lparr>json_file := Holds [process way_A]\<rparr>"


definition no_ways :: raw_data where
  "no_ways = \<lparr>elements = Some []\<rparr>"

definition unknown_region :: env where
  "unknown_region = (example_env two_ways)\<lparr>geocode_reply := (\<lambda>r. None)\<rparr>"

definition outage :: env where
  "outage =
     failing Geocode GeocoderTimedOut
       (failing Download (RequestException ''ConnectionError'')
         (failing JsonWrite (OtherException ''OSError'')
           (failing SqlCleanup Psycopg2Error
             (failing GraphCleanup (OtherException ''ServiceUnavailable'')
               (example_env two_ways)))))"

text \<open>Three lines that meet at \<open>(1, 1)\<close>; a line and a single point on its end; two
  lines that share both endpoints.\<close>

definition junction :: "element list" where
  "junction =
     [\<lparr>id_el = 1, geometry = [\<lparr>lat = 0, lon = 0\<rparr>, \<lparr>lat = 1, lon = 1\<rparr>], name = None\<rparr>,
      \<lparr>id_el = 2, geometry = [\<lparr>lat = 1, lon = 1\<rparr>, \<lparr>lat = 2, lon = 2\<rparr>], name = None\<rparr>,
      \<lparr>id_el = 6, geometry = [\<lparr>lat = 3, lon = 3\<rparr>, \<lparr>lat = 1, lon = 1\<rparr>], name = None\<rparr>]"

definition single_point :: "element list" where
  "single_point =
     [\<lparr>id_el = 1, geometry = [\<lparr>lat = 0, lon = 0\<rparr>, \<lparr>lat = 1, lon = 1\<rparr>], name = None\<rparr>,
      \<lparr>id_el = 4, geometry = [\<lparr>lat = 1, lon = 1\<rparr>], name = None\<rparr>]"

definition there_and_back :: "element list" where
  "there_and_back =
     [\<lparr>id_el = 1, geometry = [\<lparr>lat = 0, lon = 0\<rparr>, \<lparr>lat = 1, lon = 1\<rparr>], name = None\<rparr>,
      \<lparr>id_el = 5, geometry = [\<lparr>lat = 1, lon = 1\<rparr>, \<lparr>lat = 0, lon = 0\<rparr>], name = None\<rparr>]"


section \<open>The connection map\<close>

lemma map_of_cm_add:
  "map_of (cm_add p i m) q =
     (if q = p then Some (insert i (case map_of m p of None \<Rightarrow> {} | Some S \<Rightarrow> S))
      else map_of m q)"
proof (induction m)
  case Nil
  show ?case by simp
next
  case (Cons x m)
  obtain k S where x: "x = (k, S)" by (cases x)
  show ?case
  proof (cases "p = k")
    case True
    then show ?thesis by (simp add: x)
  next
    case False
    show ?thesis
    proof (cases "q = p")
      case True
      with False Cons show ?thesis by (simp add: x)
    next
      case q: False
      with False Cons show ?thesis by (simp add: x)
    qed
  qed
qed

lemma ids_at_cm_add: "ids_at (cm_add p i m) q = (if q = p then insert i (ids_at m p) else ids_at m q)"
  by (simp add: ids_at_def map_of_cm_add)

lemma keys_cm_add: "fst ` set (cm_add p i m) = insert p (fst ` set m)"
  by (induction p i m rule: cm_add.induct) auto

lemma distinct_cm_add: "distinct (map fst m) \<Longrightarrow> distinct (map fst (cm_add p i m))"
  by (induction p i m rule: cm_add.induct) (auto simp: keys_cm_add)

lemma ids_at_in: "distinct (map fst m) \<Longrightarrow> (p, S) \<in> set m \<Longrightarrow> ids_at m p = S"
  by (simp add: ids_at_def)

lemma in_of_ids_at: "ids_at m p \<noteq> {} \<Longrightarrow> (p, ids_at m p) \<in> set m"
  by (auto simp: ids_at_def split: option.splits dest: map_of_SomeD)

lemma loop_Cons:
  "build_connection_map_loop m (e # es) =
     (if geometry e = [] then Inl IndexError
      else build_connection_map_loop
             (cm_add (end_point e) (id_el e) (cm_add (start_point e) (id_el e) m)) es)"
  by (cases "geometry e") (simp_all add: start_point_def end_point_def Let_def)

lemma loop_distinct:
  "build_connection_map_loop m es = Inr cm \<Longrightarrow> distinct (map fst m) \<Longrightarrow> distinct (map fst cm)"
proof (induction es arbitrary: m)
  case Nil
  then show ?case by simp
next
  case (Cons e es)
  from Cons.prems(1) have g: "geometry e \<noteq> []"
    by (auto simp only: loop_Cons split: if_splits)
  with Cons.prems(1) have "build_connection_map_loop
      (cm_add (end_point e) (id_el e) (cm_add (start_point e) (id_el e) m)) es = Inr cm"
    by (simp only: loop_Cons if_False)
  then show ?case
    by (rule Cons.IH) (intro distinct_cm_add Cons.prems(2))
qed

lemma loop_ids:
  "build_connection_map_loop m es = Inr cm \<Longrightarrow>
   ids_at cm q = ids_at m q \<union> {id_el e | e. e \<in> set es \<and> q \<in> endpoints e}"
proof (induction es arbitrary: m)
  case Nil
  then show ?case by simp
next
  case (Cons e es)
  let ?m' = "cm_add (end_point e) (id_el e) (cm_add (start_point e) (id_el e) m)"
  from Cons.prems have g: "geometry e \<noteq> []"
    by (auto simp only: loop_Cons split: if_splits)
  with Cons.prems have "build_connection_map_loop ?m' es = Inr cm"
    by (simp only: loop_Cons if_False)
  then have "ids_at cm q = ids_at ?m' q \<union> {id_el x | x. x \<in> set es \<and> q \<in> endpoints x}"
    by (rule Cons.IH)
  moreover have "ids_at ?m' q = ids_at m q \<union> (if q \<in> endpoints e then {id_el e} else {})"
    by (auto simp: ids_at_cm_add endpoints_def)
  moreover have "{id_el x | x. x \<in> set (e # es) \<and> q \<in> endpoints x} =
      (if q \<in> endpoints e then {id_el e} else {}) \<union> {id_el x | x. x \<in> set es \<and> q \<in> endpoints x}"
    by auto
  ultimately show ?case by (simp only: Un_assoc)
qed

lemma loop_total:
  "\<forall>e\<in>set es. geometry e \<noteq> [] \<Longrightarrow> \<exists>cm. build_connection_map_loop m es = Inr cm"
proof (induction es arbitrary: m)
  case Nil
  then show ?case by simp
next
  case (Cons e es)
  then show ?case by (simp only: loop_Cons) simp
qed

lemma set_pairs_of:
  "set (pairs_of l) = {\<lparr>rel_from = l ! i, rel_to = l ! j\<rparr> | i j. i < j \<and> j < length l}"
proof (intro set_eqI iffI)
  fix r assume "r \<in> set (pairs_of l)"
  then obtain i j where "i < length l" "i + 1 \<le> j" "j < length l"
    "r = \<lparr>rel_from = l ! i, rel_to = l ! j\<rparr>"
    by (auto simp: pairs_of_def)
  then show "r \<in> {\<lparr>rel_from = l ! i, rel_to = l ! j\<rparr> | i j. i < j \<and> j < length l}"
    by (intro CollectI exI[of _ i] exI[of _ j]) simp
next
  fix r assume "r \<in> {\<lparr>rel_from = l ! i, rel_to = l ! j\<rparr> | i j. i < j \<and> j < length l}"
  then obtain i j where "i < j" "j < length l" "r = \<lparr>rel_from = l ! i, rel_to = l ! j\<rparr>"
    by blast
  then show "r \<in> set (pairs_of l)"
    by (auto simp: pairs_of_def intro!: bexI[of _ i] image_eqI[of _ _ j])
qed

lemma set_generate:
  "set (generate_relationships enum cm) =
   (\<Union>(p, S)\<in>set cm. if card S > 1 then set (pairs_of (enum S)) else {})"
  by (auto simp: generate_relationships_def split: if_splits)

lemma in_generate:
  "(q, S) \<in> set cm \<Longrightarrow> card S > 1 \<Longrightarrow> r \<in> set (pairs_of (enum S)) \<Longrightarrow>
   r \<in> set (generate_relationships enum cm)"
  unfolding set_generate by (rule UN_I[of "(q, S)"]) simp_all

text \<open>What the connection map built from scratch holds at each key.\<close>

lemma build_ids:
  assumes "build_connection_map es = Inr cm"
  shows "ids_at cm q = {id_el e | e. e \<in> set es \<and> q \<in> endpoints e}"
  using loop_ids[of "[]" es cm q] assms by (simp add: build_connection_map_def ids_at_def)

lemma build_entry:
  assumes "build_connection_map es = Inr cm" "(q, S) \<in> set cm"
  shows "S = {id_el e | e. e \<in> set es \<and> q \<in> endpoints e}"
proof -
  have "distinct (map fst cm)"
    using loop_distinct[of "[]" es cm] assms(1) by (simp add: build_connection_map_def)
  then have "ids_at cm q = S" using assms(2) by (rule ids_at_in)
  with build_ids[OF assms(1), of q] show ?thesis by simp
qed

lemma build_entry_finite:
  assumes "build_connection_map es = Inr cm" "(q, S) \<in> set cm"
  shows "finite S"
proof -
  have "S = id_el ` {e \<in> set es. q \<in> endpoints e}"
    using build_entry[OF assms] by auto
  then show ?thesis by simp
qed

text \<open>A relationship comes from one key of the map and joins two different ids of
  that key's set.\<close>

lemma generate_elim:
  assumes en: "enumerates enum" and b: "build_connection_map es = Inr cm"
    and r: "r \<in> set (generate_relationships enum cm)"
  obtains q S where "(q, S) \<in> set cm" "rel_from r \<in> S" "rel_to r \<in> S" "rel_from r \<noteq> rel_to r"
proof -
  from r obtain q S where qs: "(q, S) \<in> set cm" "card S > 1" "r \<in> set (pairs_of (enum S))"
    by (auto simp: set_generate split: if_splits)
  have fin: "finite S" using b qs(1) by (rule build_entry_finite)
  with en have e: "set (enum S) = S" "distinct (enum S)" by (simp_all add: enumerates_def)
  from qs(3) obtain i j where ij: "i < j" "j < length (enum S)"
      "r = \<lparr>rel_from = enum S ! i, rel_to = enum S ! j\<rparr>"
    by (auto simp: set_pairs_of)
  have "rel_from r \<in> S" "rel_to r \<in> S" using ij e(1) nth_mem[of i "enum S"] nth_mem[of j "enum S"]
    by auto
  moreover have "rel_from r \<noteq> rel_to r" using ij e(2) by (simp add: nth_eq_iff_index_eq)
  ultimately show ?thesis using qs(1) that by blast
qed

lemma generate_intro:
  assumes en: "enumerates enum" and b: "build_connection_map es = Inr cm"
    and qs: "(q, S) \<in> set cm" and x: "x \<in> S" and y: "y \<in> S" and ne: "x \<noteq> y"
  shows "\<exists>r\<in>set (generate_relationships enum cm). {rel_from r, rel_to r} = {x, y}"
proof -
  have fin: "finite S" using b qs by (rule build_entry_finite)
  with en have e: "set (enum S) = S" "distinct (enum S)" by (simp_all add: enumerates_def)
  have c: "card S > 1"
  proof -
    have "card {x, y} \<le> card S" using fin x y by (intro card_mono) auto
    with ne show ?thesis by simp
  qed
  from x y e(1) obtain i j where ij: "i < length (enum S)" "enum S ! i = x"
      "j < length (enum S)" "enum S ! j = y"
    by (metis in_set_conv_nth)
  with ne have "i \<noteq> j" by auto
  then consider "i < j" | "j < i" by linarith
  then show ?thesis
  proof cases
    case 1
    then have "\<lparr>rel_from = x, rel_to = y\<rparr> \<in> set (pairs_of (enum S))"
      using ij by (auto simp: set_pairs_of)
    then have "\<lparr>rel_from = x, rel_to = y\<rparr> \<in> set (generate_relationships enum cm)"
      using qs c by (intro in_generate)
    then show ?thesis by (intro bexI[of _ "\<lparr>rel_from = x, rel_to = y\<rparr>"]) simp_all
  next
    case 2
    then have "\<lparr>rel_from = y, rel_to = x\<rparr> \<in> set (pairs_of (enum S))"
      using ij by (auto simp: set_pairs_of)
    then have "\<lparr>rel_from = y, rel_to = x\<rparr> \<in> set (generate_relationships enum cm)"
      using qs c by (intro in_generate)
    then show ?thesis by (intro bexI[of _ "\<lparr>rel_from = y, rel_to = x\<rparr>"]) auto
  qed
qed

section \<open>The actions, one equation each\<close>

lemmas action_defs = bindE_def returnE_def raiseE_def try_except_def lift_def modify_def
  info_def attempt_def

lemma sql_cleanup_eq:
  "sql_cleanup ev w =
     (case faults ev SqlCleanup of
        Some e \<Rightarrow> (Inl DatabaseError, w\<lparr>trace := trace w @ [SqlCleanup]\<rparr>)
      | None \<Rightarrow> (Inr (), w\<lparr>trace := trace w @ [SqlCleanup], sql_table := Map.empty,
                           log := log w @ [Info ''Successfully removed all records'']\<rparr>))"
  by (simp add: sql_cleanup_def action_defs split: option.splits)

lemma sql_save_data_eq:
  "sql_save_data ev data w =
     (case faults ev SqlSaveData of
        Some e \<Rightarrow> (Inl DatabaseError,
                   w\<lparr>trace := trace w @ [SqlSaveData],
                     sql_table := upsert_all (take (sql_rows_committed ev) data) (sql_table w)\<rparr>)
      | None \<Rightarrow> (Inr (), w\<lparr>trace := trace w @ [SqlSaveData],
                           sql_table := upsert_all data (sql_table w),
                           log := log w @ [Info ''Successfully inserted records'']\<rparr>))"
  by (simp add: sql_save_data_def action_defs split: option.splits)

lemma graph_cleanup_eq:
  "graph_cleanup ev w =
     (case faults ev GraphCleanup of
        Some e \<Rightarrow> (Inl GraphBuilderError, w\<lparr>trace := trace w @ [GraphCleanup]\<rparr>)
      | None \<Rightarrow> (Inr (), w\<lparr>trace := trace w @ [GraphCleanup], graph_nodes := Map.empty,
                           graph_rels := [],
                           log := log w @ [Info ''All nodes and relationships removed from Neo4j.'']\<rparr>))"
  by (simp add: graph_cleanup_def action_defs split: option.splits)

lemma build_graph_eq:
  "build_graph ev enum elems w =
     (case faults ev GraphNodes of
        Some e \<Rightarrow> (Inl GraphBuilderError, w\<lparr>trace := trace w @ [GraphNodes]\<rparr>)
      | None \<Rightarrow>
         (case build_connection_map elems of
            Inl e \<Rightarrow> (Inl GraphBuilderError,
                       w\<lparr>trace := trace w @ [GraphNodes],
                         graph_nodes := merge_nodes elems (graph_nodes w)\<rparr>)
          | Inr cm \<Rightarrow>
             (case faults ev GraphRelationships of
                Some e \<Rightarrow> (Inl GraphBuilderError,
                       w\<lparr>trace := trace w @ [GraphNodes, GraphRelationships],
                         graph_nodes := merge_nodes elems (graph_nodes w)\<rparr>)
              | None \<Rightarrow> (Inr (),
                       w\<lparr>trace := trace w @ [GraphNodes, GraphRelationships],
                         graph_nodes := merge_nodes elems (graph_nodes w),
                         graph_rels := merge_relationships (merge_nodes elems (graph_nodes w))
                                         (generate_relationships enum cm) (graph_rels w),
                         log := log w @ [Info ''Graph built successfully'']\<rparr>))))"
  by (simp add: build_graph_def create_nodes_def create_relationships_def action_defs Let_def
           split: option.splits sum.splits)


lemma sync_eq:
  "sync ev enum pd w =
     (case sql_cleanup ev (w\<lparr>log := log w @ [Info ''Inserting new data into database'']\<rparr>) of
        (Inl e, w1) \<Rightarrow> (Inl e, w1)
      | (Inr u, w1) \<Rightarrow>
        (case sql_save_data ev pd w1 of
           (Inl e, w2) \<Rightarrow> (Inl e, w2)
         | (Inr u, w2) \<Rightarrow>
           (case graph_cleanup ev (w2\<lparr>log := log w2 @ [Info ''Creating new graph'']\<rparr>) of
              (Inl e, w3) \<Rightarrow> (Inl e, w3)
            | (Inr u, w3) \<Rightarrow> build_graph ev enum pd w3)))"
  by (simp add: sync_def bindE_def info_def modify_def split: prod.splits sum.splits)

lemmas sink_eqs = sync_eq sql_cleanup_eq sql_save_data_eq graph_cleanup_eq build_graph_eq

lemma sync_json_file: "sync ev enum pd w = (r, w') \<Longrightarrow> json_file w' = json_file w"
  by (auto simp: sink_eqs split: option.splits sum.splits)

lemma sync_sql_fault:
  assumes "faults ev SqlCleanup \<noteq> None \<or> faults ev SqlSaveData \<noteq> None"
    and "sync ev enum pd w = (r, w')"
  shows "r = Inl DatabaseError" "graph_nodes w' = graph_nodes w" "graph_rels w' = graph_rels w"
    "set (trace w') \<subseteq> set (trace w) \<union> {SqlCleanup, SqlSaveData}"
  using assms by (auto simp: sink_eqs split: option.splits sum.splits)

lemma sync_first_step: "sync ev enum pd w = (r, w') \<Longrightarrow> SqlCleanup \<in> set (trace w')"
  by (auto simp: sink_eqs split: option.splits sum.splits)

lemma sync_sinks:
  assumes "sync ev enum pd w = (r, w1)" "sync ev enum pd w1 = (r', w2)"
  shows "r' = r" "sql_table w2 = sql_table w1" "graph_nodes w2 = graph_nodes w1"
    "graph_rels w2 = graph_rels w1"
  using assms by (auto simp: sink_eqs split: option.splits sum.splits)


lemma acquire_frame:
  assumes "acquire ev w = (r, w')"
  shows "json_file w' = json_file w" "sql_table w' = sql_table w"
    "graph_nodes w' = graph_nodes w" "graph_rels w' = graph_rels w"
    "set (trace w') \<subseteq> set (trace w) \<union> {Init, Geocode, Download}"
  using assms
  by (auto simp: acquire_def get_region_bbox_def download_data_def action_defs
           split: option.splits sum.splits if_splits exn.splits)

lemma json_get_data_frame:
  assumes "json_get_data ev w = (r, w')"
  shows "json_file w' = json_file w" "sql_table w' = sql_table w"
    "graph_nodes w' = graph_nodes w" "graph_rels w' = graph_rels w"
    "set (trace w') \<subseteq> set (trace w) \<union> {JsonRead}"
    "r = Inr old \<Longrightarrow> old = (case json_file w of Holds d \<Rightarrow> Some d | _ \<Rightarrow> None) \<and> json_file w \<noteq> Garbled"
  using assms
  by (auto simp: json_get_data_def action_defs split: option.splits sum.splits json_file.splits)

lemma json_save_data_frame:
  assumes "json_save_data ev pd w = (r, w')"
  shows "sql_table w' = sql_table w"
    "graph_nodes w' = graph_nodes w" "graph_rels w' = graph_rels w"
    "set (trace w') \<subseteq> set (trace w) \<union> {JsonWrite}"
    "r = Inr u \<Longrightarrow> json_file w' = Holds pd"
    "r = Inl e \<Longrightarrow> faults ev JsonWrite = Some e \<and> json_file w' = (if json_write_opened ev then Garbled else json_file w)"
  using assms
  by (auto simp: json_save_data_def split: option.splits)


text \<open>A run of the \<open>try\<close> block either stops before the sinks, or has written the
  snapshot and then runs \<open>sync\<close>.\<close>

lemma main_try_cases:
  assumes m: "main_try ev enum w = (r, w')"
  obtains (early) "sql_table w' = sql_table w" "graph_nodes w' = graph_nodes w"
      "graph_rels w' = graph_rels w" "set (trace w') \<subseteq> set (trace w) \<union> early_steps"
  | (synced) pd w1 w2 where "acquire ev w = (Inr pd, w1)" "json_file w \<noteq> Holds pd"
      "json_file w \<noteq> Garbled" "faults ev JsonWrite = None"
      "json_file w2 = Holds pd" "sql_table w2 = sql_table w" "graph_nodes w2 = graph_nodes w"
      "graph_rels w2 = graph_rels w" "set (trace w2) \<subseteq> set (trace w) \<union> early_steps"
      "sync ev enum pd w2 = (r, w')"
proof -
  obtain ra w1 where a: "acquire ev w = (ra, w1)" by (cases "acquire ev w")
  note fa = acquire_frame[OF a]
  show ?thesis
  proof (cases ra)
    case (Inl e)
    with m a have "w' = w1" by (simp add: main_try_def bindE_def)
    with fa show ?thesis by (intro early) (auto simp: early_steps_def)
  next
    case pd: (Inr pd)
    obtain rg wg where g: "json_get_data ev w1 = (rg, wg)" by (cases "json_get_data ev w1")
    note fg = json_get_data_frame[OF g]
    show ?thesis
    proof (cases rg)
      case (Inl e)
      with m a pd g have "w' = wg" by (simp add: main_try_def bindE_def)
      with fa fg(1-5) show ?thesis by (intro early) (auto simp: early_steps_def)
    next
      case old: (Inr old)
      from fg(6)[OF old] fa(1)
      have o: "old = (case json_file w of Holds d \<Rightarrow> Some d | _ \<Rightarrow> None)" "json_file w \<noteq> Garbled"
        by simp_all
      show ?thesis
      proof (cases "is_data_changed pd old")
        case False
        with m a pd g old have "w' = wg\<lparr>log := log wg @ [Info ''Processed data is not changed, skipping'']\<rparr>"
          by (simp add: main_try_def bindE_def info_def modify_def)
        with fa fg(1-5) show ?thesis by (intro early) (auto simp: early_steps_def)
      next
        case True
        let ?wi = "wg\<lparr>log := log wg @ [Info ''Saving processed data'']\<rparr>"
        obtain rs w2 where s: "json_save_data ev pd ?wi = (rs, w2)"
          by (cases "json_save_data ev pd ?wi")
        note fs = json_save_data_frame[OF s]
        show ?thesis
        proof (cases rs)
          case (Inl e)
          with m a pd g old True s have "w' = w2"
            by (simp add: main_try_def bindE_def info_def modify_def)
          with fa fg(1-5) fs(1-4) show ?thesis by (intro early) (auto simp: early_steps_def)
        next
          case (Inr u)
          with m a pd g old True s have y: "sync ev enum pd w2 = (r, w')"
            by (simp add: main_try_def bindE_def info_def modify_def)
          have nf: "faults ev JsonWrite = None"
            using s Inr by (auto simp: json_save_data_def split: option.splits)
          have ne: "json_file w \<noteq> Holds pd"
            using True o(1) by (auto simp: is_data_changed_def)
          show ?thesis
            using a pd ne o(2) nf fs(5)[OF Inr] fa fg(1-5) fs(1-4) y
            by (intro synced[of pd w1 w2]) (auto simp: early_steps_def)
        qed
      qed
    qed
  qed
qed

lemmas run_defs = two_ways_def stored_world_def main_def main_try_def acquire_def get_region_bbox_def download_data_def
  json_get_data_def json_save_data_def action_defs validate_def validate_sql_config_def
  validate_neo4j_config_def truthy_def example_config_def example_env_def fresh_world_def
  failing_def process_data_def process_def extract_geometry_def way_A_def way_B_def
  is_data_changed_def handler_def



lemma sync_sql_fault_last:
  assumes "faults ev SqlCleanup \<noteq> None \<or> faults ev SqlSaveData \<noteq> None"
    and "sync ev enum pd w = (r, w')"
  shows "last (trace w') \<in> {SqlCleanup, SqlSaveData}"
  using assms by (auto simp: sink_eqs split: option.splits sum.splits)

lemma main_fields:
  assumes "main_try ev enum w = (r, w')"
  shows "json_file (main ev enum w) = json_file w'" "sql_table (main ev enum w) = sql_table w'"
    "graph_nodes (main ev enum w) = graph_nodes w'" "graph_rels (main ev enum w) = graph_rels w'"
    "trace (main ev enum w) = trace w'"
    "log (main ev enum w) = (case r of Inl e \<Rightarrow> log w' @ [handler e] | Inr u \<Rightarrow> log w')"
  using assms by (auto simp: main_def split: sum.splits)

section \<open>The claims about \<open>main\<close>\<close>

text \<open>
  C1 (amended). \<open>main\<close> writes the snapshot right after the diff gate and before it
  touches a sink. So in every run that makes a call to a sink (in particular every run
  in which \<open>sql_storage.cleanup\<close>, \<open>sql_storage.save_data\<close>, \<open>graph_builder.cleanup\<close>
  or \<open>graph_builder.build_graph\<close> raises), the snapshot file ends the run holding the
  newly processed collection, and that is not the collection it held at the start.
\<close>

theorem snapshot_written_before_sinks:
  assumes "trace w = []" and "s \<in> set (trace (main ev enum w))"
    and "s \<in> {SqlCleanup, SqlSaveData} \<union> graph_steps"
  shows "\<exists>pd w1. acquire ev w = (Inr pd, w1) \<and> json_file (main ev enum w) = Holds pd
           \<and> json_file w \<noteq> Holds pd"
proof -
  obtain r w' where m: "main_try ev enum w = (r, w')" by (cases "main_try ev enum w")
  note f = main_fields[OF m]
  from m show ?thesis
  proof (cases rule: main_try_cases)
    case early
    with assms f(5) show ?thesis by (auto simp: early_steps_def graph_steps_def)
  next
    case (synced pd w1 w2)
    from sync_json_file[OF synced(10)] synced(5) have "json_file w' = Holds pd" by simp
    with synced(1,2) f(1) show ?thesis by auto
  qed
qed

theorem snapshot_written_before_sinks_witness:
  "trace stored_world = [] \<and>
   SqlCleanup \<in> set (trace (main (failing SqlCleanup Psycopg2Error (example_env two_ways))
                                  sorted_list_of_set stored_world)) \<and>
   SqlCleanup \<in> {SqlCleanup, SqlSaveData} \<union> graph_steps \<and>
   (\<exists>pd w1. acquire (failing SqlCleanup Psycopg2Error (example_env two_ways)) stored_world
               = (Inr pd, w1) \<and>
            json_file (main (failing SqlCleanup Psycopg2Error (example_env two_ways))
                            sorted_list_of_set stored_world) = Holds pd \<and>
            json_file stored_world \<noteq> Holds pd)"
proof -
  have h1: "trace stored_world = []" by (simp add: run_defs)
  have h2: "SqlCleanup \<in> set (trace (main (failing SqlCleanup Psycopg2Error (example_env two_ways))
                                  sorted_list_of_set stored_world))"
    by (simp add: run_defs sink_eqs)
  have h3: "SqlCleanup \<in> {SqlCleanup, SqlSaveData} \<union> graph_steps" by simp
  from snapshot_written_before_sinks[OF h1 h2 h3] h1 h2 h3 show ?thesis by simp
qed

text \<open>C1 as stated fails: the snapshot holds the first way, the download brings two ways,
  \<open>TRUNCATE\<close> raises; the run reports a database error and leaves the new collection in
  the snapshot file.\<close>

theorem snapshot_kept_on_sink_failure_counterexample:
  "faults (failing SqlCleanup Psycopg2Error (example_env two_ways)) SqlCleanup = Some Psycopg2Error \<and>
   trace (main (failing SqlCleanup Psycopg2Error (example_env two_ways))
               sorted_list_of_set stored_world) = [Init, Geocode, Download, JsonRead, JsonWrite, SqlCleanup] \<and>
   last (log (main (failing SqlCleanup Psycopg2Error (example_env two_ways))
               sorted_list_of_set stored_world)) = Error ''Database error'' \<and>
   json_file stored_world = Holds [process way_A] \<and>
   json_file (main (failing SqlCleanup Psycopg2Error (example_env two_ways))
                   sorted_list_of_set stored_world) = Holds [process way_A, process way_B] \<and>
   json_file (main (failing SqlCleanup Psycopg2Error (example_env two_ways))
                   sorted_list_of_set stored_world) \<noteq> json_file stored_world"
  by (simp add: run_defs sink_eqs)

text \<open>
  C5. If \<open>sql_storage.cleanup\<close> or \<open>sql_storage.save_data\<close> raises, the run makes no
  call to the graph store (neither \<open>cleanup\<close> nor the two statements of \<open>build_graph\<close>)
  and leaves the graph as it was; when the run gets as far as the table, the failing table
  call is the last call it makes and the database error is the last thing it logs.
\<close>

theorem graph_sink_untouched_when_table_fails:
  assumes "faults ev SqlCleanup \<noteq> None \<or> faults ev SqlSaveData \<noteq> None" and "trace w = []"
  shows "set (trace (main ev enum w)) \<inter> graph_steps = {} \<and>
         graph_nodes (main ev enum w) = graph_nodes w \<and>
         graph_rels (main ev enum w) = graph_rels w \<and>
         (SqlCleanup \<in> set (trace (main ev enum w)) \<longrightarrow>
            last (trace (main ev enum w)) \<in> {SqlCleanup, SqlSaveData} \<and>
            last (log (main ev enum w)) = Error ''Database error'')"
proof -
  obtain r w' where m: "main_try ev enum w = (r, w')" by (cases "main_try ev enum w")
  note f = main_fields[OF m]
  from m show ?thesis
  proof (cases rule: main_try_cases)
    case early
    with assms(2) f show ?thesis by (auto simp: early_steps_def graph_steps_def)
  next
    case (synced pd w1 w2)
    note y = sync_sql_fault[OF assms(1) synced(10)] sync_sql_fault_last[OF assms(1) synced(10)]
    have "set (trace w') \<inter> graph_steps = {}"
      using y(4) synced(9) assms(2) by (auto simp: early_steps_def graph_steps_def)
    moreover have "last (log (main ev enum w)) = Error ''Database error''"
      using f(6) y(1) by (simp add: handler_def)
    ultimately show ?thesis using f y synced by simp
  qed
qed



theorem graph_sink_untouched_when_table_fails_witness:
  "faults (failing SqlSaveData Psycopg2Error (example_env two_ways)) SqlSaveData
     = Some Psycopg2Error \<and>
   trace fresh_world = [] \<and>
   SqlCleanup \<in> set (trace (main (failing SqlSaveData Psycopg2Error (example_env two_ways))
                                  sorted_list_of_set fresh_world)) \<and>
   set (trace (main (failing SqlSaveData Psycopg2Error (example_env two_ways))
                    sorted_list_of_set fresh_world)) \<inter> graph_steps = {} \<and>
   last (log (main (failing SqlSaveData Psycopg2Error (example_env two_ways))
                   sorted_list_of_set fresh_world)) = Error ''Database error''"
proof -
  let ?ev = "failing SqlSaveData Psycopg2Error (example_env two_ways)"
  have h1: "faults ?ev SqlCleanup \<noteq> None \<or> faults ?ev SqlSaveData \<noteq> None"
    by (simp add: failing_def)
  have h2: "trace fresh_world = []" by (simp add: fresh_world_def)
  have h3: "SqlCleanup \<in> set (trace (main ?ev sorted_list_of_set fresh_world))"
    by (simp add: run_defs sink_eqs)
  have h4: "faults ?ev SqlSaveData = Some Psycopg2Error" by (simp add: failing_def)
  from graph_sink_untouched_when_table_fails[OF h1 h2, of sorted_list_of_set] h2 h3 h4
  show ?thesis by simp
qed

section \<open>The claims about the processor and the differ\<close>





text \<open>
  C7. \<open>is_data_changed\<close> is false on a collection and itself, true on a non-empty
  collection and an absent baseline, and true on two collections that differ at all: in
  their members, in the geometries, the names or the ids read in order.
\<close>

theorem is_data_changed_compares_whole_lists:
  "\<not> is_data_changed X (Some X) \<and>
   (X \<noteq> [] \<longrightarrow> is_data_changed X None) \<and>
   (X \<noteq> Y \<longrightarrow> is_data_changed X (Some Y)) \<and>
   (set X \<noteq> set Y \<longrightarrow> is_data_changed X (Some Y)) \<and>
   (map geometry X \<noteq> map geometry Y \<longrightarrow> is_data_changed X (Some Y)) \<and>
   (map name X \<noteq> map name Y \<longrightarrow> is_data_changed X (Some Y)) \<and>
   (map id_el X \<noteq> map id_el Y \<longrightarrow> is_data_changed X (Some Y))"
  by (auto simp: is_data_changed_def)

theorem is_data_changed_compares_whole_lists_witness:
  "[process way_A, process way_B] \<noteq> [] \<and>
   [process way_A, process way_B] \<noteq> [process way_B, process way_A] \<and>
   set [process way_A, process way_B] = set [process way_B, process way_A] \<and>
   \<not> is_data_changed [process way_A, process way_B] (Some [process way_A, process way_B]) \<and>
   is_data_changed [process way_A, process way_B] None \<and>
   is_data_changed [process way_A, process way_B] (Some [process way_B, process way_A])"
proof -
  have h: "[process way_A, process way_B] \<noteq> [process way_B, process way_A]"
    by (simp add: process_def way_A_def way_B_def)
  from is_data_changed_compares_whole_lists[of "[process way_A, process way_B]"
      "[process way_B, process way_A]"] h
  show ?thesis by auto
qed

text \<open>
  C10. With no snapshot file, \<open>is_data_changed\<close> is true for every collection. When the
  processed collection is empty and no outside call raises, the run writes the empty
  collection as the snapshot, empties and loads the table and the graph (all five calls are
  made), and both stores end empty.
\<close>

theorem first_run_passes_gate:
  assumes "json_file w = Missing" and "acquire ev w = (Inr [], w1)" and "\<forall>s. faults ev s = None"
  shows "(\<forall>X. is_data_changed X None) \<and>
         json_file (main ev enum w) = Holds [] \<and>
         sql_table (main ev enum w) = Map.empty \<and>
         graph_nodes (main ev enum w) = Map.empty \<and>
         graph_rels (main ev enum w) = [] \<and>
         trace (main ev enum w) =
           trace w1 @ [JsonWrite, SqlCleanup, SqlSaveData, GraphCleanup, GraphNodes,
                       GraphRelationships]"
proof -
  have j: "json_file w1 = Missing" using acquire_frame(1)[OF assms(2)] assms(1) by simp
  have g: "json_get_data ev w1 = (Inr None, w1)" by (simp add: json_get_data_def j)
  have c: "\<forall>X. is_data_changed X None" by (simp add: is_data_changed_def)
  have "main_try ev enum w =
      sync ev enum [] (w1\<lparr>trace := trace w1 @ [JsonWrite], json_file := Holds [],
              log := log w1 @ [Info ''Saving processed data'', Info ''New processed data saved'']\<rparr>)"
    using assms(2,3) g c
    by (simp add: main_try_def bindE_def info_def modify_def json_save_data_def)
  then show ?thesis using assms(3) c
    by (simp add: main_def sink_eqs build_connection_map_def generate_relationships_def)
qed

theorem first_run_passes_gate_witness:
  "json_file fresh_world = Missing \<and>
   fst (acquire (example_env no_ways) fresh_world) = Inr [] \<and>
   json_file (main (example_env no_ways) sorted_list_of_set fresh_world) = Holds [] \<and>
   trace (main (example_env no_ways) sorted_list_of_set fresh_world) =
     [Init, Geocode, Download, JsonWrite, SqlCleanup, SqlSaveData, GraphCleanup, GraphNodes,
      GraphRelationships]"
proof -
  obtain w1 where a: "acquire (example_env no_ways) fresh_world = (Inr [], w1)"
      and t: "trace w1 = [Init, Geocode, Download]"
    by (simp add: run_defs no_ways_def)
  have h1: "json_file fresh_world = Missing" by (simp add: fresh_world_def)
  have h3: "\<forall>s. faults (example_env no_ways) s = None" by (simp add: example_env_def)
  from first_run_passes_gate[OF h1 a h3, of sorted_list_of_set] h1 a t
  show ?thesis by simp
qed

section \<open>The claims about the sinks\<close>

lemma build_total:
  "\<forall>e\<in>set es. geometry e \<noteq> [] \<Longrightarrow> \<exists>cm. build_connection_map es = Inr cm"
  unfolding build_connection_map_def by (rule loop_total)

text \<open>
  C9. When no outside call raises and every geometry is non-empty, \<open>sync\<close> run twice in
  succession on one collection succeeds both times and leaves the table, the nodes and the
  relationships as the first run left them: the rows and nodes of the collection, loaded
  into emptied stores.
\<close>

theorem sync_twice_same_sinks:
  assumes "\<forall>s. faults ev s = None" and "\<forall>e\<in>set pd. geometry e \<noteq> []"
  shows "\<exists>w1 w2. sync ev enum pd w = (Inr (), w1) \<and> sync ev enum pd w1 = (Inr (), w2) \<and>
           sql_table w2 = sql_table w1 \<and> graph_nodes w2 = graph_nodes w1 \<and>
           graph_rels w2 = graph_rels w1 \<and>
           sql_table w1 = upsert_all pd Map.empty \<and>
           graph_nodes w1 = merge_nodes pd Map.empty"
proof -
  from build_total[OF assms(2)] obtain cm where cm: "build_connection_map pd = Inr cm" ..
  obtain r w1 where s1: "sync ev enum pd w = (r, w1)" by (cases "sync ev enum pd w")
  obtain r' w2 where s2: "sync ev enum pd w1 = (r', w2)" by (cases "sync ev enum pd w1")
  have r: "r = Inr ()" "sql_table w1 = upsert_all pd Map.empty"
      "graph_nodes w1 = merge_nodes pd Map.empty"
    using s1 assms(1) cm by (auto simp: sink_eqs)
  from sync_sinks[OF s1 s2] r s1 s2 show ?thesis by auto
qed

theorem sync_twice_same_sinks_witness:
  "(\<exists>w1 w2. sync (example_env two_ways) sorted_list_of_set [process way_A, process way_B]
               stored_world = (Inr (), w1) \<and>
            sync (example_env two_ways) sorted_list_of_set [process way_A, process way_B] w1
               = (Inr (), w2) \<and>
            sql_table w2 = sql_table w1 \<and> graph_nodes w2 = graph_nodes w1 \<and>
            graph_rels w2 = graph_rels w1)"
proof -
  have h1: "\<forall>s. faults (example_env two_ways) s = None" by (simp add: example_env_def)
  have h2: "\<forall>e\<in>set [process way_A, process way_B]. geometry e \<noteq> []"
    by (simp add: process_def extract_geometry_def way_A_def way_B_def)
  from sync_twice_same_sinks[OF h1 h2, of sorted_list_of_set stored_world]
  show ?thesis by blast
qed

lemma get_region_bbox_eq:
  "fst (get_region_bbox ev region w) =
     (case faults ev Geocode of
        Some e \<Rightarrow> if e = GeocoderTimedOut \<or> e = GeocoderUnavailable then Inl GeocodingError
                  else Inl e
      | None \<Rightarrow>
          (case geocode_reply ev region of
             None \<Rightarrow> Inl GeocodingError
           | Some bb \<Rightarrow> if length bb < 4 then Inl IndexError
                        else Inr (join_comma [bb ! 0, bb ! 2, bb ! 1, bb ! 3])))"
  by (simp add: get_region_bbox_def action_defs split: option.splits)

lemma download_data_eq:
  "fst (download_data ev bbox w) =
     (case faults ev Download of
        Some e \<Rightarrow> (case e of RequestException c \<Rightarrow> Inl OsmApiError | _ \<Rightarrow> Inl e)
      | None \<Rightarrow> Inr (download_reply ev bbox))"
  by (simp add: download_data_def action_defs split: option.splits exn.splits)

text \<open>A run that makes a snapshot call which raises ends with that exception.\<close>

lemma main_try_snapshot_fault:
  assumes m: "main_try ev enum w = (r, w')" and t: "trace w = []"
    and f: "s = JsonRead \<or> s = JsonWrite" "faults ev s = Some x" "s \<in> set (trace w')"
  shows "r = Inl x"
proof -
  obtain ra w1 where a: "acquire ev w = (ra, w1)" by (cases "acquire ev w")
  note fa = acquire_frame(5)[OF a]
  show ?thesis
  proof (cases ra)
    case (Inl e)
    with m a have "w' = w1" by (simp add: main_try_def bindE_def)
    with fa t f show ?thesis by auto
  next
    case pd: (Inr pd)
    obtain rg wg where g: "json_get_data ev w1 = (rg, wg)" by (cases "json_get_data ev w1")
    have tg: "set (trace wg) \<subseteq> {Init, Geocode, Download, JsonRead}"
      using json_get_data_frame(5)[OF g] fa t by auto
    show ?thesis
    proof (cases rg)
      case (Inl e)
      with m a pd g have w: "w' = wg" "r = Inl e" by (simp_all add: main_try_def bindE_def)
      with tg f have s: "s = JsonRead" by auto
      with g Inl f(2) have "e = x"
        by (auto simp: json_get_data_def action_defs split: json_file.splits option.splits)
      with w show ?thesis by simp
    next
      case old: (Inr old)
      have nr: "faults ev JsonRead = None \<or> JsonRead \<notin> set (trace wg)"
        using g old fa t
        by (auto simp: json_get_data_def action_defs split: json_file.splits option.splits)
      show ?thesis
      proof (cases "is_data_changed pd old")
        case False
        with m a pd g old
        have "w' = wg\<lparr>log := log wg @ [Info ''Processed data is not changed, skipping'']\<rparr>"
          by (simp add: main_try_def bindE_def info_def modify_def)
        with tg f nr show ?thesis by auto
      next
        case True
        let ?wi = "wg\<lparr>log := log wg @ [Info ''Saving processed data'']\<rparr>"
        obtain rs w2 where sv: "json_save_data ev pd ?wi = (rs, w2)"
          by (cases "json_save_data ev pd ?wi")
        show ?thesis
        proof (cases rs)
          case (Inl e)
          with m a pd g old True sv have w: "w' = w2" "r = Inl e"
            by (simp_all add: main_try_def bindE_def info_def modify_def)
          have t2: "trace w2 = trace wg @ [JsonWrite]" "faults ev JsonWrite = Some e"
            using sv Inl by (auto simp: json_save_data_def split: option.splits)
          with w tg f nr have "s = JsonWrite" by auto
          with t2(2) f(2) w(2) show ?thesis by simp
        next
          case (Inr u)
          then have nw: "faults ev JsonWrite = None"
            using sv by (auto simp: json_save_data_def split: option.splits)
          have t2: "set (trace w2) \<subseteq> set (trace wg) \<union> {JsonWrite}"
            using json_save_data_frame(4)[OF sv] by simp
          from m a pd g old True sv Inr have y: "sync ev enum pd w2 = (r, w')"
            by (simp add: main_try_def bindE_def info_def modify_def)
          then have "set (trace w') \<subseteq> set (trace w2) \<union>
              {SqlCleanup, SqlSaveData, GraphCleanup, GraphNodes, GraphRelationships}"
            by (auto simp: sink_eqs split: option.splits sum.splits)
          with t2 f nw nr have False by auto
          then show ?thesis ..
        qed
      qed
    qed
  qed
qed

text \<open>
  C8 (amended). Whatever the relational sink calls raise surfaces as \<open>DatabaseError\<close>,
  and whatever the graph sink calls raise as \<open>GraphBuilderError\<close>. The geocoder surfaces
  \<open>GeocoderTimedOut\<close>, \<open>GeocoderUnavailable\<close> and a missing location as
  \<open>GeocodingError\<close>; the downloader surfaces \<open>requests.RequestException\<close> and every
  subclass of it as \<open>OsmApiError\<close>. Snapshot-store failures are not wrapped:
  \<open>JsonDataStorage\<close> has no handler, so what reading or writing the snapshot file raises
  leaves it as it was raised, and \<open>main\<close> reports it through its last handler as
  an unexpected error.
\<close>

theorem boundary_failures_by_handler:
  "(fst (sql_cleanup ev w) = Inl e \<longrightarrow> e = DatabaseError) \<and>
   (fst (sql_save_data ev data w) = Inl e \<longrightarrow> e = DatabaseError) \<and>
   (fst (graph_cleanup ev w) = Inl e \<longrightarrow> e = GraphBuilderError) \<and>
   (fst (build_graph ev enum data w) = Inl e \<longrightarrow> e = GraphBuilderError) \<and>
   (faults ev SqlCleanup = Some x \<longrightarrow> fst (sql_cleanup ev w) = Inl DatabaseError) \<and>
   (faults ev SqlSaveData = Some x \<longrightarrow> fst (sql_save_data ev data w) = Inl DatabaseError) \<and>
   (faults ev GraphCleanup = Some x \<longrightarrow> fst (graph_cleanup ev w) = Inl GraphBuilderError) \<and>
   (faults ev GraphNodes = Some x \<longrightarrow> fst (build_graph ev enum data w) = Inl GraphBuilderError) \<and>
   (faults ev GraphRelationships = Some x \<longrightarrow> faults ev GraphNodes = None \<longrightarrow>
      fst (build_graph ev enum data w) = Inl GraphBuilderError) \<and>
   (faults ev Geocode = Some x \<longrightarrow> x = GeocoderTimedOut \<or> x = GeocoderUnavailable \<longrightarrow>
      fst (get_region_bbox ev region w) = Inl GeocodingError) \<and>
   (faults ev Geocode = None \<longrightarrow> geocode_reply ev region = None \<longrightarrow>
      fst (get_region_bbox ev region w) = Inl GeocodingError) \<and>
   (faults ev Download = Some (RequestException c) \<longrightarrow>
      fst (download_data ev bbox w) = Inl OsmApiError) \<and>
   (faults ev JsonWrite = Some x \<longrightarrow> fst (json_save_data ev data w) = Inl x) \<and>
   (faults ev JsonRead = Some x \<longrightarrow> json_file w \<noteq> Missing \<longrightarrow>
      fst (json_get_data ev w) = Inl x) \<and>
   (trace w = [] \<longrightarrow> s = JsonRead \<or> s = JsonWrite \<longrightarrow> faults ev s = Some x \<longrightarrow>
      s \<in> set (trace (main ev enum w)) \<longrightarrow> \<not> named x \<longrightarrow>
      last (log (main ev enum w)) = Error ''Unexpected error'')"
proof -
  have sinks:
    "fst (sql_cleanup ev w) = Inl e \<longrightarrow> e = DatabaseError"
    "fst (sql_save_data ev data w) = Inl e \<longrightarrow> e = DatabaseError"
    "fst (graph_cleanup ev w) = Inl e \<longrightarrow> e = GraphBuilderError"
    "fst (build_graph ev enum data w) = Inl e \<longrightarrow> e = GraphBuilderError"
    "faults ev SqlCleanup = Some x \<longrightarrow> fst (sql_cleanup ev w) = Inl DatabaseError"
    "faults ev SqlSaveData = Some x \<longrightarrow> fst (sql_save_data ev data w) = Inl DatabaseError"
    "faults ev GraphCleanup = Some x \<longrightarrow> fst (graph_cleanup ev w) = Inl GraphBuilderError"
    "faults ev GraphNodes = Some x \<longrightarrow> fst (build_graph ev enum data w) = Inl GraphBuilderError"
    "faults ev GraphRelationships = Some x \<longrightarrow> faults ev GraphNodes = None \<longrightarrow>
      fst (build_graph ev enum data w) = Inl GraphBuilderError"
    by (auto simp: sql_cleanup_eq sql_save_data_eq graph_cleanup_eq build_graph_eq
          split: option.splits sum.splits)
  have fetch:
    "faults ev Geocode = Some x \<longrightarrow> x = GeocoderTimedOut \<or> x = GeocoderUnavailable \<longrightarrow>
      fst (get_region_bbox ev region w) = Inl GeocodingError"
    "faults ev Geocode = None \<longrightarrow> geocode_reply ev region = None \<longrightarrow>
      fst (get_region_bbox ev region w) = Inl GeocodingError"
    "faults ev Download = Some (RequestException c) \<longrightarrow>
      fst (download_data ev bbox w) = Inl OsmApiError"
    by (auto simp: get_region_bbox_eq download_data_eq)
  have snap:
    "faults ev JsonWrite = Some x \<longrightarrow> fst (json_save_data ev data w) = Inl x"
    "faults ev JsonRead = Some x \<longrightarrow> json_file w \<noteq> Missing \<longrightarrow>
      fst (json_get_data ev w) = Inl x"
    by (auto simp: json_save_data_def json_get_data_def action_defs split: json_file.splits)
  have report: "trace w = [] \<longrightarrow> s = JsonRead \<or> s = JsonWrite \<longrightarrow> faults ev s = Some x \<longrightarrow>
      s \<in> set (trace (main ev enum w)) \<longrightarrow> \<not> named x \<longrightarrow>
      last (log (main ev enum w)) = Error ''Unexpected error''"
  proof (intro impI)
    assume h: "trace w = []" "s = JsonRead \<or> s = JsonWrite" "faults ev s = Some x"
      "s \<in> set (trace (main ev enum w))" "\<not> named x"
    obtain r w' where m: "main_try ev enum w = (r, w')" by (cases "main_try ev enum w")
    note f = main_fields[OF m]
    from h(4) f(5) have "s \<in> set (trace w')" by simp
    from main_try_snapshot_fault[OF m h(1,2,3) this] have "r = Inl x" .
    with f(6) h(5) show "last (log (main ev enum w)) = Error ''Unexpected error''"
      by (simp add: handler_def named_def)
  qed
  from sinks fetch snap report show ?thesis by (intro conjI)
qed

theorem boundary_failures_by_handler_witness:
  "fst (sql_cleanup outage fresh_world) = Inl DatabaseError \<and>
   fst (graph_cleanup outage fresh_world) = Inl GraphBuilderError \<and>
   fst (get_region_bbox outage (Some ''Pomorskie'') fresh_world) = Inl GeocodingError \<and>
   fst (get_region_bbox unknown_region (Some ''Pomorskie'') fresh_world) = Inl GeocodingError \<and>
   fst (download_data outage ''53.4,16.7,54.8,19.6'' fresh_world) = Inl OsmApiError \<and>
   fst (json_save_data outage [] fresh_world) = Inl (OtherException ''OSError'') \<and>
   JsonWrite \<in> set (trace (main (failing JsonWrite (OtherException ''OSError'')
                                         (example_env two_ways))
                                sorted_list_of_set fresh_world)) \<and>
   last (log (main (failing JsonWrite (OtherException ''OSError'') (example_env two_ways))
                   sorted_list_of_set fresh_world)) = Error ''Unexpected error''"
proof -
  let ?ev = "failing JsonWrite (OtherException ''OSError'') (example_env two_ways)"
  have o: "faults outage SqlCleanup = Some Psycopg2Error"
      "faults outage GraphCleanup = Some (OtherException ''ServiceUnavailable'')"
      "faults outage Geocode = Some GeocoderTimedOut"
      "faults outage Download = Some (RequestException ''ConnectionError'')"
      "faults outage JsonWrite = Some (OtherException ''OSError'')"
    by (simp_all add: outage_def failing_def example_env_def)
  have u: "faults unknown_region Geocode = None"
      "geocode_reply unknown_region (Some ''Pomorskie'') = None"
    by (simp_all add: unknown_region_def example_env_def)
  have j: "trace fresh_world = []" "faults ?ev JsonWrite = Some (OtherException ''OSError'')"
      "JsonWrite \<in> set (trace (main ?ev sorted_list_of_set fresh_world))"
      "\<not> named (OtherException ''OSError'')"
    by (simp_all add: run_defs named_def)
  note a = boundary_failures_by_handler[of outage fresh_world DatabaseError "[]"
      sorted_list_of_set Psycopg2Error]
  note b = boundary_failures_by_handler[of outage fresh_world DatabaseError "[]"
      sorted_list_of_set "OtherException ''ServiceUnavailable''"]
  note c = boundary_failures_by_handler[of outage fresh_world DatabaseError "[]"
      sorted_list_of_set GeocoderTimedOut "Some ''Pomorskie''" "''ConnectionError''"
      "''53.4,16.7,54.8,19.6''"]
  note d = boundary_failures_by_handler[of unknown_region fresh_world DatabaseError "[]"
      sorted_list_of_set GeocoderTimedOut "Some ''Pomorskie''"]
  note e = boundary_failures_by_handler[of outage fresh_world DatabaseError "[]"
      sorted_list_of_set "OtherException ''OSError''"]
  note f = boundary_failures_by_handler[of ?ev fresh_world DatabaseError "[]"
      sorted_list_of_set "OtherException ''OSError''" _ _ _ JsonWrite]
  from a o(1) have 1: "fst (sql_cleanup outage fresh_world) = Inl DatabaseError" by blast
  from b o(2) have 2: "fst (graph_cleanup outage fresh_world) = Inl GraphBuilderError" by blast
  from c o(3) have 3: "fst (get_region_bbox outage (Some ''Pomorskie'') fresh_world)
      = Inl GeocodingError" by blast
  from d u have 4: "fst (get_region_bbox unknown_region (Some ''Pomorskie'') fresh_world)
      = Inl GeocodingError" by blast
  from c o(4) have 5: "fst (download_data outage ''53.4,16.7,54.8,19.6'' fresh_world)
      = Inl OsmApiError" by blast
  from e o(5) have 6: "fst (json_save_data outage [] fresh_world)
      = Inl (OtherException ''OSError'')" by blast
  from f j have 7: "last (log (main ?ev sorted_list_of_set fresh_world))
      = Error ''Unexpected error''" by blast
  from 1 2 3 4 5 6 j(3) 7 show ?thesis by (intro conjI)
qed

text \<open>C8 as stated fails: an \<open>OSError\<close> of the snapshot write leaves
  \<open>JsonDataStorage\<close> as it was raised, it is none of the named kinds, and \<open>main\<close>
  reports it as unexpected.\<close>

theorem unwrapped_failures_counterexample:
  "fst (json_save_data (failing JsonWrite (OtherException ''OSError'') (example_env two_ways))
          [] fresh_world) = Inl (OtherException ''OSError'') \<and>
   \<not> named (OtherException ''OSError'') \<and>
   trace (main (failing JsonWrite (OtherException ''OSError'') (example_env two_ways))
               sorted_list_of_set fresh_world) = [Init, Geocode, Download, JsonWrite] \<and>
   last (log (main (failing JsonWrite (OtherException ''OSError'') (example_env two_ways))
                   sorted_list_of_set fresh_world)) = Error ''Unexpected error''"
  by (simp add: run_defs named_def)

section \<open>The claims about the graph builder\<close>

lemma enumerates_sorted: "enumerates sorted_list_of_set"
  by (simp add: enumerates_def)

text \<open>Two elements with a common endpoint are joined by a relationship.\<close>

lemma shared_endpoint_joined:
  assumes en: "enumerates enum" and b: "build_connection_map es = Inr cm"
    and a: "a \<in> set es" "c \<in> set es" "id_el a \<noteq> id_el c"
    and p: "p \<in> endpoints a" "p \<in> endpoints c"
  shows "\<exists>r\<in>set (generate_relationships enum cm). {rel_from r, rel_to r} = {id_el a, id_el c}"
proof -
  have "id_el a \<in> ids_at cm p" "id_el c \<in> ids_at cm p"
    using a p by (auto simp: build_ids[OF b])
  moreover from this have "(p, ids_at cm p) \<in> set cm" by (intro in_of_ids_at) auto
  ultimately show ?thesis using a(3) by (intro generate_intro[OF en b])
qed

lemma joined_shared_endpoint:
  assumes en: "enumerates enum" and b: "build_connection_map es = Inr cm"
    and d: "distinct (map id_el es)"
    and a: "a \<in> set es" "c \<in> set es"
    and r: "r \<in> set (generate_relationships enum cm)" "{rel_from r, rel_to r} = {id_el a, id_el c}"
  shows "endpoints a \<inter> endpoints c \<noteq> {}"
proof -
  from en b r(1) obtain q S where qs: "(q, S) \<in> set cm" "rel_from r \<in> S" "rel_to r \<in> S"
    by (rule generate_elim)
  have S: "S = {id_el e | e. e \<in> set es \<and> q \<in> endpoints e}" using b qs(1) by (rule build_entry)
  have inj: "inj_on id_el (set es)" using d by (simp add: distinct_map)
  have "id_el a \<in> S" "id_el c \<in> S" using qs(2,3) r(2) by (auto simp: doubleton_eq_iff)
  then obtain e e' where "e \<in> set es" "q \<in> endpoints e" "id_el e = id_el a"
      "e' \<in> set es" "q \<in> endpoints e'" "id_el e' = id_el c"
    unfolding S by auto
  with inj a have "q \<in> endpoints a" "q \<in> endpoints c" by (auto dest: inj_onD)
  then show ?thesis by auto
qed

lemma junction_pairs:
  assumes en: "enumerates enum" and b: "build_connection_map es = Inr cm"
    and K: "K = {id_el e | e. e \<in> set es \<and> p \<in> endpoints e}" and k: "2 \<le> card K"
  shows "{{rel_from r, rel_to r} | r. r \<in> set (generate_relationships enum cm) \<and>
            rel_from r \<in> K \<and> rel_to r \<in> K} = {B. B \<subseteq> K \<and> card B = 2}"
    (is "?L = ?R")
proof (intro set_eqI iffI)
  fix B assume "B \<in> ?L"
  then obtain r where r: "r \<in> set (generate_relationships enum cm)" "rel_from r \<in> K"
      "rel_to r \<in> K" "B = {rel_from r, rel_to r}" by auto
  from en b r(1) obtain q S where "rel_from r \<noteq> rel_to r" by (rule generate_elim)
  with r show "B \<in> ?R" by simp
next
  fix B assume "B \<in> ?R"
  then obtain x y where xy: "B = {x, y}" "x \<noteq> y" "x \<in> K" "y \<in> K"
    by (auto simp: card_2_iff)
  have Kc: "K = ids_at cm p" using K build_ids[OF b, of p] by simp
  with xy have "(p, K) \<in> set cm" using in_of_ids_at[of cm p] by auto
  from generate_intro[OF en b this xy(3,4,2)]
  obtain r where r: "r \<in> set (generate_relationships enum cm)" "{rel_from r, rel_to r} = {x, y}"
    by auto
  then have "rel_from r \<in> K" "rel_to r \<in> K" using xy(3,4) by (auto simp: doubleton_eq_iff)
  with r xy(1) show "B \<in> ?L" by auto
qed

text \<open>
  C2. For elements with distinct ids and non-empty geometries, the connection map is built,
  and two elements with different ids appear together in a generated relationship exactly
  when an endpoint of the one equals an endpoint of the other, both components equal.
  Moreover, when the ids of the elements that have a point \<open>p\<close> as an endpoint are
  \<open>k \<ge> 2\<close> in number, the unordered pairs generated among those ids are all the
  two-element subsets of them, \<open>k\<close> choose 2 in number.
\<close>

theorem endpoint_grouping:
  assumes "enumerates enum" and "distinct (map id_el es)" and "\<forall>e\<in>set es. geometry e \<noteq> []"
  shows "\<exists>cm. build_connection_map es = Inr cm \<and>
    (\<forall>a\<in>set es. \<forall>c\<in>set es. id_el a \<noteq> id_el c \<longrightarrow>
       ((\<exists>r\<in>set (generate_relationships enum cm). {rel_from r, rel_to r} = {id_el a, id_el c})
        \<longleftrightarrow> endpoints a \<inter> endpoints c \<noteq> {})) \<and>
    (\<forall>p K. K = {id_el e | e. e \<in> set es \<and> p \<in> endpoints e} \<longrightarrow> 2 \<le> card K \<longrightarrow>
       {{rel_from r, rel_to r} | r. r \<in> set (generate_relationships enum cm) \<and>
            rel_from r \<in> K \<and> rel_to r \<in> K} = {B. B \<subseteq> K \<and> card B = 2} \<and>
       card {B. B \<subseteq> K \<and> card B = 2} = card K choose 2)"
proof -
  from build_total[OF assms(3)] obtain cm where b: "build_connection_map es = Inr cm" ..
  have 1: "(\<exists>r\<in>set (generate_relationships enum cm). {rel_from r, rel_to r} = {id_el a, id_el c})
        \<longleftrightarrow> endpoints a \<inter> endpoints c \<noteq> {}"
    if "a \<in> set es" "c \<in> set es" "id_el a \<noteq> id_el c" for a c
  proof
    assume "\<exists>r\<in>set (generate_relationships enum cm). {rel_from r, rel_to r} = {id_el a, id_el c}"
    then obtain r where "r \<in> set (generate_relationships enum cm)"
        "{rel_from r, rel_to r} = {id_el a, id_el c}" by blast
    then show "endpoints a \<inter> endpoints c \<noteq> {}"
      by (rule joined_shared_endpoint[OF assms(1) b assms(2) that(1,2)])
  next
    assume "endpoints a \<inter> endpoints c \<noteq> {}"
    then obtain p where "p \<in> endpoints a" "p \<in> endpoints c" by blast
    then show "\<exists>r\<in>set (generate_relationships enum cm). {rel_from r, rel_to r} = {id_el a, id_el c}"
      by (rule shared_endpoint_joined[OF assms(1) b that])
  qed
  have 2: "{{rel_from r, rel_to r} | r. r \<in> set (generate_relationships enum cm) \<and>
            rel_from r \<in> K \<and> rel_to r \<in> K} = {B. B \<subseteq> K \<and> card B = 2} \<and>
       card {B. B \<subseteq> K \<and> card B = 2} = card K choose 2"
    if K: "K = {id_el e | e. e \<in> set es \<and> p \<in> endpoints e}" and k: "2 \<le> card K" for p K
  proof -
    have "finite K" using k by (cases "finite K") auto
    then have "card {B. B \<subseteq> K \<and> card B = 2} = card K choose 2" by (rule n_subsets)
    with junction_pairs[OF assms(1) b K k] show ?thesis by simp
  qed
  show ?thesis
  proof (intro exI[of _ cm] conjI ballI allI impI)
    show "build_connection_map es = Inr cm" by (rule b)
  next
    fix a c assume "a \<in> set es" "c \<in> set es" "id_el a \<noteq> id_el c"
    then show "(\<exists>r\<in>set (generate_relationships enum cm).
                  {rel_from r, rel_to r} = {id_el a, id_el c})
               \<longleftrightarrow> endpoints a \<inter> endpoints c \<noteq> {}"
      by (rule 1)
  next
    fix p K assume "K = {id_el e | e. e \<in> set es \<and> p \<in> endpoints e}" "2 \<le> card K"
    from 2[OF this]
    show "{{rel_from r, rel_to r} | r. r \<in> set (generate_relationships enum cm) \<and>
            rel_from r \<in> K \<and> rel_to r \<in> K} = {B. B \<subseteq> K \<and> card B = 2}"
      by (rule conjunct1)
    from 2[OF \<open>K = _\<close> \<open>2 \<le> card K\<close>]
    show "card {B. B \<subseteq> K \<and> card B = 2} = card K choose 2"
      by (rule conjunct2)
  qed
qed

theorem endpoint_grouping_witness:
  "enumerates sorted_list_of_set \<and> distinct (map id_el junction) \<and>
   build_connection_map junction
     = Inr [((0, 0), {1}), ((1, 1), {1, 2, 6}), ((2, 2), {2}), ((3, 3), {6})] \<and>
   generate_relationships sorted_list_of_set
       [((0, 0), {1}), ((1, 1), {1, 2, 6}), ((2, 2), {2}), ((3, 3), {6})]
     = [\<lparr>rel_from = 1, rel_to = 2\<rparr>, \<lparr>rel_from = 1, rel_to = 6\<rparr>,
        \<lparr>rel_from = 2, rel_to = 6\<rparr>] \<and>
   (\<exists>cm. build_connection_map junction = Inr cm \<and>
    (\<forall>a\<in>set junction. \<forall>c\<in>set junction. id_el a \<noteq> id_el c \<longrightarrow>
       ((\<exists>r\<in>set (generate_relationships sorted_list_of_set cm).
            {rel_from r, rel_to r} = {id_el a, id_el c})
        \<longleftrightarrow> endpoints a \<inter> endpoints c \<noteq> {})) \<and>
    (\<forall>p K. K = {id_el e | e. e \<in> set junction \<and> p \<in> endpoints e} \<longrightarrow> 2 \<le> card K \<longrightarrow>
       {{rel_from r, rel_to r} | r. r \<in> set (generate_relationships sorted_list_of_set cm) \<and>
            rel_from r \<in> K \<and> rel_to r \<in> K} = {B. B \<subseteq> K \<and> card B = 2} \<and>
       card {B. B \<subseteq> K \<and> card B = 2} = card K choose 2))"
proof -
  have h1: "enumerates sorted_list_of_set" by (rule enumerates_sorted)
  have h2: "distinct (map id_el junction)" by (simp add: junction_def)
  have h3: "\<forall>e\<in>set junction. geometry e \<noteq> []" by (simp add: junction_def)
  have b: "build_connection_map junction
     = Inr [((0, 0), {1}), ((1, 1), {1, 2, 6}), ((2, 2), {2}), ((3, 3), {6})]"
    by (simp add: junction_def build_connection_map_def insert_commute)
  have g: "generate_relationships sorted_list_of_set
       [((0, 0), {1}), ((1, 1), {1, 2, 6}), ((2, 2), {2}), ((3, 3), {6})]
     = [\<lparr>rel_from = 1, rel_to = 2\<rparr>, \<lparr>rel_from = 1, rel_to = 6\<rparr>,
        \<lparr>rel_from = 2, rel_to = 6\<rparr>]"
    by (simp add: generate_relationships_def pairs_of_def upt_rec)
  show ?thesis
    by (intro conjI h1 h2 b g endpoint_grouping[OF h1 h2 h3])
qed


text \<open>
  C3. For elements with non-empty geometries (their ids distinct or not), the connection
  map is built and no generated relationship has equal \<open>from\<close> and \<open>to\<close>; an element
  whose geometry is a single point is no exception.
\<close>

theorem no_self_relationship:
  assumes "enumerates enum" and "\<forall>e\<in>set es. geometry e \<noteq> []"
  shows "\<exists>cm. build_connection_map es = Inr cm \<and>
           (\<forall>r\<in>set (generate_relationships enum cm). rel_from r \<noteq> rel_to r)"
proof -
  from build_total[OF assms(2)] obtain cm where b: "build_connection_map es = Inr cm" ..
  have "rel_from r \<noteq> rel_to r" if "r \<in> set (generate_relationships enum cm)" for r
    using assms(1) b that by (rule generate_elim)
  with b show ?thesis by blast
qed

theorem no_self_relationship_witness:
  "enumerates sorted_list_of_set \<and>
   build_connection_map single_point = Inr [((0, 0), {1}), ((1, 1), {1, 4})] \<and>
   generate_relationships sorted_list_of_set [((0, 0), {1}), ((1, 1), {1, 4})]
     = [\<lparr>rel_from = 1, rel_to = 4\<rparr>] \<and>
   (\<exists>cm. build_connection_map single_point = Inr cm \<and>
      (\<forall>r\<in>set (generate_relationships sorted_list_of_set cm). rel_from r \<noteq> rel_to r))"
proof -
  have h1: "enumerates sorted_list_of_set" by (rule enumerates_sorted)
  have h2: "\<forall>e\<in>set single_point. geometry e \<noteq> []" by (simp add: single_point_def)
  have b: "build_connection_map single_point = Inr [((0, 0), {1}), ((1, 1), {1, 4})]"
    by (simp add: single_point_def build_connection_map_def insert_commute)
  have g: "generate_relationships sorted_list_of_set [((0, 0), {1}), ((1, 1), {1, 4})]
     = [\<lparr>rel_from = 1, rel_to = 4\<rparr>]"
    by (simp add: generate_relationships_def pairs_of_def)
  show ?thesis
    by (intro conjI h1 b g no_self_relationship[OF h1 h2])
qed

lemma set_merge_rel: "set (merge_rel r rs) = insert r (set rs)"
  by (auto simp: merge_rel_def)

lemma distinct_merge_rel: "distinct rs \<Longrightarrow> distinct (merge_rel r rs)"
  by (simp add: merge_rel_def)

lemma distinct_merge_relationships:
  "distinct rs \<Longrightarrow> distinct (merge_relationships ns rels rs)"
  by (induction rels arbitrary: rs) (simp_all add: distinct_merge_rel)

lemma set_merge_relationships:
  "set (merge_relationships ns rels rs) =
     set rs \<union> {(rel_from r, rel_to r) | r. r \<in> set rels \<and> ns (rel_from r) \<noteq> None \<and> ns (rel_to r) \<noteq> None}
            \<union> {(rel_to r, rel_from r) | r. r \<in> set rels \<and> ns (rel_from r) \<noteq> None \<and> ns (rel_to r) \<noteq> None}"
proof (induction rels arbitrary: rs)
  case Nil
  show ?case by simp
next
  case (Cons x rels)
  show ?case
  proof (cases "ns (rel_from x) \<noteq> None \<and> ns (rel_to x) \<noteq> None")
    case True
    then have eq: "merge_relationships ns (x # rels) rs =
        merge_relationships ns rels
          (merge_rel (rel_to x, rel_from x) (merge_rel (rel_from x, rel_to x) rs))"
      by simp
    show ?thesis unfolding eq Cons.IH set_merge_rel using True by auto
  next
    case False
    then have eq: "merge_relationships ns (x # rels) rs = merge_relationships ns rels rs"
      by auto
    show ?thesis unfolding eq Cons.IH using False by auto
  qed
qed

lemma count_list_distinct: "distinct xs \<Longrightarrow> x \<in> set xs \<Longrightarrow> count_list xs x = 1"
  by (induction xs) auto

lemma dom_merge_nodes: "dom (merge_nodes es ns) = dom ns \<union> id_el ` set es"
  by (induction es arbitrary: ns) auto

lemma sync_success:
  assumes "sync ev enum es w = (Inr (), w')"
  shows "\<exists>cm. build_connection_map es = Inr cm \<and>
           graph_nodes w' = merge_nodes es Map.empty \<and>
           graph_rels w' = merge_relationships (merge_nodes es Map.empty)
                             (generate_relationships enum cm) []"
  using assms by (auto simp: sink_eqs split: option.splits sum.splits)

text \<open>
  C4. After a successful \<open>sync\<close> the graph store holds no relationship twice, and two
  elements with different ids that share an endpoint (one or both) are joined by exactly
  one relationship in each direction: the two-way connection of that pair. The list that
  \<open>_generate_relationships\<close> returns may name a pair once for each shared key; \<open>MERGE\<close>
  collapses the repeats.
\<close>

theorem one_relationship_each_way:
  assumes "enumerates enum" and "sync ev enum es w = (Inr (), w')"
  shows "distinct (graph_rels w') \<and>
         (\<forall>a\<in>set es. \<forall>c\<in>set es. id_el a \<noteq> id_el c \<longrightarrow> endpoints a \<inter> endpoints c \<noteq> {} \<longrightarrow>
            count_list (graph_rels w') (id_el a, id_el c) = 1 \<and>
            count_list (graph_rels w') (id_el c, id_el a) = 1)"
proof -
  from sync_success[OF assms(2)] obtain cm where b: "build_connection_map es = Inr cm"
    and g: "graph_rels w' = merge_relationships (merge_nodes es Map.empty)
                             (generate_relationships enum cm) []"
    by blast
  let ?ns = "merge_nodes es Map.empty"
  have d: "distinct (graph_rels w')" unfolding g by (rule distinct_merge_relationships) simp
  have cnt: "count_list (graph_rels w') x = 1" if "x \<in> set (graph_rels w')" for x
    using d that by (rule count_list_distinct)
  have both: "(id_el a, id_el c) \<in> set (graph_rels w') \<and> (id_el c, id_el a) \<in> set (graph_rels w')"
    if a: "a \<in> set es" "c \<in> set es" "id_el a \<noteq> id_el c" and s: "endpoints a \<inter> endpoints c \<noteq> {}"
    for a c
  proof -
    from s obtain p where p: "p \<in> endpoints a" "p \<in> endpoints c" by blast
    from shared_endpoint_joined[OF assms(1) b a p]
    obtain r where r: "r \<in> set (generate_relationships enum cm)"
        "{rel_from r, rel_to r} = {id_el a, id_el c}" by blast
    have "id_el a \<in> dom ?ns" "id_el c \<in> dom ?ns" using a by (simp_all add: dom_merge_nodes)
    then have n: "?ns (rel_from r) \<noteq> None" "?ns (rel_to r) \<noteq> None"
      using r(2) by (auto simp: doubleton_eq_iff)
    have "(rel_from r, rel_to r) \<in> set (graph_rels w')" "(rel_to r, rel_from r) \<in> set (graph_rels w')"
      unfolding g set_merge_relationships using r(1) n by blast+
    then show ?thesis using r(2) by (auto simp: doubleton_eq_iff)
  qed
  show ?thesis
  proof (intro conjI ballI impI)
    show "distinct (graph_rels w')" by (rule d)
  next
    fix a c assume "a \<in> set es" "c \<in> set es" "id_el a \<noteq> id_el c" "endpoints a \<inter> endpoints c \<noteq> {}"
    from both[OF this] show "count_list (graph_rels w') (id_el a, id_el c) = 1"
      by (intro cnt) simp
    from both[OF \<open>a \<in> set es\<close> \<open>c \<in> set es\<close> \<open>id_el a \<noteq> id_el c\<close> \<open>endpoints a \<inter> endpoints c \<noteq> {}\<close>]
    show "count_list (graph_rels w') (id_el c, id_el a) = 1"
      by (intro cnt) simp
  qed
qed

theorem one_relationship_each_way_witness:
  "enumerates sorted_list_of_set \<and>
   build_connection_map there_and_back = Inr [((0, 0), {1, 5}), ((1, 1), {1, 5})] \<and>
   generate_relationships sorted_list_of_set [((0, 0), {1, 5}), ((1, 1), {1, 5})]
     = [\<lparr>rel_from = 1, rel_to = 5\<rparr>, \<lparr>rel_from = 1, rel_to = 5\<rparr>] \<and>
   fst (sync (example_env two_ways) sorted_list_of_set there_and_back stored_world) = Inr () \<and>
   graph_rels (snd (sync (example_env two_ways) sorted_list_of_set there_and_back stored_world))
     = [(1, 5), (5, 1)] \<and>
   count_list (graph_rels (snd (sync (example_env two_ways) sorted_list_of_set there_and_back
                                  stored_world))) (1, 5) = 1 \<and>
   count_list (graph_rels (snd (sync (example_env two_ways) sorted_list_of_set there_and_back
                                  stored_world))) (5, 1) = 1"
proof -
  let ?w' = "snd (sync (example_env two_ways) sorted_list_of_set there_and_back stored_world)"
  have h1: "enumerates sorted_list_of_set" by (rule enumerates_sorted)
  have b: "build_connection_map there_and_back = Inr [((0, 0), {1, 5}), ((1, 1), {1, 5})]"
    by (simp add: there_and_back_def build_connection_map_def insert_commute)
  have g: "generate_relationships sorted_list_of_set [((0, 0), {1, 5}), ((1, 1), {1, 5})]
     = [\<lparr>rel_from = 1, rel_to = 5\<rparr>, \<lparr>rel_from = 1, rel_to = 5\<rparr>]"
    by (simp add: generate_relationships_def pairs_of_def)
  have f: "fst (sync (example_env two_ways) sorted_list_of_set there_and_back stored_world) = Inr ()"
    by (simp add: sink_eqs example_env_def b)
  then have h2: "sync (example_env two_ways) sorted_list_of_set there_and_back stored_world
      = (Inr (), ?w')"
    by (simp add: prod_eq_iff)
  have r: "graph_rels ?w' = [(1, 5), (5, 1)]"
    by (simp add: sink_eqs example_env_def b g merge_rel_def) (simp add: there_and_back_def)
  have e: "endpoints (there_and_back ! 0) \<inter> endpoints (there_and_back ! 1) \<noteq> {}"
    by (simp add: there_and_back_def endpoints_def start_point_def end_point_def)
  from one_relationship_each_way[OF h1 h2] e
  have "count_list (graph_rels ?w') (1, 5) = 1 \<and> count_list (graph_rels ?w') (5, 1) = 1"
    by (simp add: there_and_back_def)
  with h1 b g f r show ?thesis by simp
qed

end
